theory Spec2Isabelle
  imports Main "HOL-Library.Multiset"
begin

section \<open>JavaScript values used by the route registry\<close>

text \<open>
  Values of TypeScript type \<open>any\<close> that the registry only stores and copies
  (responses, request bodies, schemas) are JSON trees. Numbers are only copied, never
  computed with, and are carried as integers. Object members are kept in enumeration order.
\<close>

datatype json =
    JNull
  | JBool bool
  | JNum int
  | JStr string
  | JArr "json list"
  | JObj "(string \<times> json) list"

text \<open>
  An optional property \<open>f?: T\<close> of a JavaScript object has three states that the
  object spread tells apart: the key is absent, the key is present and holds
  \<open>undefined\<close>, or the key holds a value.
\<close>

datatype 'a opt = Absent | Undefined | Val 'a

text \<open>JavaScript truthiness of the values that are tested with \<open>||\<close> and \<open>&&\<close>.\<close>

fun truthy :: "json \<Rightarrow> bool" where
  "truthy JNull = False"
| "truthy (JBool b) = b"
| "truthy (JNum n) = (n \<noteq> 0)"
| "truthy (JStr s) = (s \<noteq> [])"
| "truthy (JArr xs) = True"
| "truthy (JObj kvs) = True"

section \<open>String primitives\<close>

definition startsWith :: "string \<Rightarrow> string \<Rightarrow> bool" where
  "startsWith s p = (take (length p) s = p)"

definition endsWith :: "string \<Rightarrow> string \<Rightarrow> bool" where
  "endsWith s p = (length p \<le> length s \<and> drop (length s - length p) s = p)"

definition upper_letters :: string where
  "upper_letters = ''ABCDEFGHIJKLMNOPQRSTUVWXYZ''"

definition lower_letters :: string where
  "lower_letters = ''abcdefghijklmnopqrstuvwxyz''"

definition digit_chars :: string where
  "digit_chars = ''0123456789''"

text \<open>
  \<open>toLowerCase\<close> and \<open>toUpperCase\<close> on the ASCII letters; every other character is
  left as it is (the HTTP verbs are ASCII).
\<close>

definition lower_char :: "char \<Rightarrow> char" where
  "lower_char c = (case map_of (zip upper_letters lower_letters) c of Some d \<Rightarrow> d | None \<Rightarrow> c)"

definition upper_char :: "char \<Rightarrow> char" where
  "upper_char c = (case map_of (zip lower_letters upper_letters) c of Some d \<Rightarrow> d | None \<Rightarrow> c)"

definition toLowerCase :: "string \<Rightarrow> string" where
  "toLowerCase s = map lower_char s"

definition toUpperCase :: "string \<Rightarrow> string" where
  "toUpperCase s = map upper_char s"

text \<open>The regular-expression class \<open>\w\<close> (no unicode flag): \<open>[A-Za-z0-9_]\<close>.\<close>

definition is_word_char :: "char \<Rightarrow> bool" where
  "is_word_char c = (c \<in> set upper_letters \<or> c \<in> set lower_letters \<or> c \<in> set digit_chars \<or> c = CHR ''_'')"

text \<open>\<open>s.split(sep)\<close> for a one-character separator; the empty string splits into one empty part.\<close>

fun split_acc :: "char \<Rightarrow> string \<Rightarrow> string \<Rightarrow> string list" where
  "split_acc sep cur [] = [rev cur]"
| "split_acc sep cur (c # cs) =
     (if c = sep then rev cur # split_acc sep [] cs else split_acc sep (c # cur) cs)"

definition split :: "string \<Rightarrow> char \<Rightarrow> string list" where
  "split s sep = split_acc sep [] s"

section \<open>The data model of \<open>src/index.ts\<close>\<close>

text \<open>A parameter object \<open>{name, in, required, schema}\<close>.\<close>

record Parameter =
  name :: string
  location :: string
  required :: bool
  schema :: json

text \<open>
  \<open>interface RouteInfo\<close>: \<open>method\<close>, \<open>path\<close>, \<open>parameters\<close>, \<open>responses\<close> and
  \<open>tags\<close> are mandatory, the other four properties are optional. The field
  \<open>method\<close> is written \<open>method'\<close>.
\<close>

record RouteInfo =
  method' :: string
  path :: string
  parameters :: "Parameter list"
  responses :: json
  tags :: "string list"
  summary :: "string opt"
  description :: "string opt"
  zodSchema :: "json opt"
  requestBody :: "json opt"

text \<open>
  The options of \<open>documentRoute\<close> and of the registration calls: an object whose five
  properties are all optional.
\<close>

record RouteOptions =
  opt_tags :: "string list opt"
  opt_summary :: "string opt"
  opt_description :: "string opt"
  opt_deprecated :: "bool opt"
  opt_requestBody :: "json opt"

text \<open>
  The part of \<open>SwaggerOptions\<close> that registration reads, after the constructor has
  filled in the defaults (\<open>route: '/swagger-ui'\<close>, \<open>excludePaths: []\<close>).
\<close>

record SwaggerOptions =
  route :: string
  excludePaths :: "string list"

text \<open>The mutable state of a \<open>HonoSwagger\<close> instance that registration touches.\<close>

record HonoSwagger =
  routes :: "RouteInfo list"
  options :: SwaggerOptions

section \<open>Object spread\<close>

text \<open>
  \<open>{ ...a, ...b }\<close> copies every own property of \<open>b\<close> over \<open>a\<close>: a key present in
  \<open>b\<close> wins, whatever it holds (also \<open>undefined\<close>, an empty string or an empty
  array); only a key absent from \<open>b\<close> keeps the value of \<open>a\<close>.
\<close>

definition spread_opt :: "'a opt \<Rightarrow> 'a opt \<Rightarrow> 'a opt" where
  "spread_opt a b = (case b of Absent \<Rightarrow> a | Undefined \<Rightarrow> Undefined | Val v \<Rightarrow> Val v)"

definition spread_route :: "RouteInfo \<Rightarrow> RouteInfo \<Rightarrow> RouteInfo" where
  "spread_route a b =
     \<lparr> method' = method' b,
       path = path b,
       parameters = parameters b,
       responses = responses b,
       tags = tags b,
       summary = spread_opt (summary a) (summary b),
       description = spread_opt (description a) (description b),
       zodSchema = spread_opt (zodSchema a) (zodSchema b),
       requestBody = spread_opt (requestBody a) (requestBody b) \<rparr>"

definition spread_options :: "RouteOptions \<Rightarrow> RouteOptions \<Rightarrow> RouteOptions" where
  "spread_options a b =
     \<lparr> opt_tags = spread_opt (opt_tags a) (opt_tags b),
       opt_summary = spread_opt (opt_summary a) (opt_summary b),
       opt_description = spread_opt (opt_description a) (opt_description b),
       opt_deprecated = spread_opt (opt_deprecated a) (opt_deprecated b),
       opt_requestBody = spread_opt (opt_requestBody a) (opt_requestBody b) \<rparr>"

section \<open>The registry: \<open>addRoute\<close> and \<open>isRouteDocumented\<close>\<close>

text \<open>\<open>Array.prototype.findIndex\<close>; the result \<open>-1\<close> is \<open>None\<close>.\<close>

fun findIndex :: "('a \<Rightarrow> bool) \<Rightarrow> 'a list \<Rightarrow> nat option" where
  "findIndex P [] = None"
| "findIndex P (x # xs) =
     (if P x then Some 0 else (case findIndex P xs of None \<Rightarrow> None | Some i \<Rightarrow> Some (Suc i)))"

definition same_route :: "string \<Rightarrow> string \<Rightarrow> RouteInfo \<Rightarrow> bool" where
  "same_route m p r = (method' r = m \<and> path r = p)"

definition addRoute :: "HonoSwagger \<Rightarrow> RouteInfo \<Rightarrow> HonoSwagger" where
  "addRoute st r =
     (case findIndex (same_route (method' r) (path r)) (routes st) of
        Some existingIndex \<Rightarrow>
          st\<lparr>routes := (routes st)[existingIndex := spread_route (routes st ! existingIndex) r]\<rparr>
      | None \<Rightarrow> st\<lparr>routes := routes st @ [r]\<rparr>)"

definition isRouteDocumented :: "HonoSwagger \<Rightarrow> string \<Rightarrow> string \<Rightarrow> bool" where
  "isRouteDocumented st m p = list_ex (same_route m p) (routes st)"

definition shouldExcludePath :: "HonoSwagger \<Rightarrow> string \<Rightarrow> bool" where
  "shouldExcludePath st p =
     (if startsWith p (route (options st)) then True
      else list_ex (\<lambda>excludePath. startsWith p excludePath) (excludePaths (options st)))"

text \<open>The registry of a fresh instance with the default options.\<close>

definition new_HonoSwagger :: "SwaggerOptions \<Rightarrow> HonoSwagger" where
  "new_HonoSwagger os = \<lparr> routes = [], options = os \<rparr>"

definition default_options :: SwaggerOptions where
  "default_options = \<lparr> route = ''/swagger-ui'', excludePaths = [] \<rparr>"

section \<open>Path conversion and the generated route fields\<close>

text \<open>
  \<open>path.replace(/:(\w+)/g, '{$1}')\<close>: scanning from the left, a colon followed by at
  least one word character is replaced, together with the longest run of word
  characters after it, by the run in braces; scanning goes on after the run.
\<close>

function replace_colon_params :: "string \<Rightarrow> string" where
  "replace_colon_params [] = []"
| "replace_colon_params (c # cs) =
     (if c = CHR '':'' \<and> takeWhile is_word_char cs \<noteq> []
      then ''{'' @ takeWhile is_word_char cs @ ''}'' @ replace_colon_params (dropWhile is_word_char cs)
      else c # replace_colon_params cs)"
  by pat_completeness auto
termination
  by (relation "measure length") (auto simp: length_dropWhile_le less_Suc_eq_le)

text \<open>\<open>path.match(/:\w+/g)\<close>: the matched substrings, left to right (\<open>null\<close> is \<open>[]\<close>).\<close>

function match_colon_params :: "string \<Rightarrow> string list" where
  "match_colon_params [] = []"
| "match_colon_params (c # cs) =
     (if c = CHR '':'' \<and> takeWhile is_word_char cs \<noteq> []
      then (c # takeWhile is_word_char cs) # match_colon_params (dropWhile is_word_char cs)
      else match_colon_params cs)"
  by pat_completeness auto
termination
  by (relation "measure length") (auto simp: length_dropWhile_le less_Suc_eq_le)

text \<open>An exception value.\<close>

datatype js_error = TypeError | SyntaxError | Thrown string

text \<open>
  The second argument of \<open>convertToOpenAPIPath\<close> is the request context, of which the
  function reads \<open>c.req.param()\<close> inside a \<open>try\<close> whose \<open>catch\<close> ignores every
  exception. \<open>EmptyContext\<close> is the \<open>{} as Context\<close> that every registration path
  passes: \<open>c.req\<close> is \<open>undefined\<close>, the call raises and the path is left as the first
  replacement made it. \<open>RequestContext\<close> is the context of a live request: the entries
  of \<open>c.req.param()\<close>, and the behaviour of the engine on
  \<open>subject.replace(new RegExp(source), replacement)\<close>, which is outside the
  repository: the replaced string, or the exception of the constructor on an invalid
  pattern. An exception ends the loop over the parameters and the path keeps the
  replacements made so far.
\<close>

datatype Context =
    EmptyContext
  | RequestContext "(string \<times> string) list" "string \<Rightarrow> string \<Rightarrow> string \<Rightarrow> js_error + string"

fun replace_params ::
  "(string \<Rightarrow> string \<Rightarrow> string \<Rightarrow> js_error + string) \<Rightarrow> (string \<times> string) list \<Rightarrow> string
     \<Rightarrow> string" where
  "replace_params regexp_replace [] openAPIPath = openAPIPath"
| "replace_params regexp_replace ((param, paramValue) # rest) openAPIPath =
     (case regexp_replace openAPIPath (''/'' @ paramValue @ ''(?=/|$)'') (''/{'' @ param @ ''}'') of
        Inl e \<Rightarrow> openAPIPath
      | Inr replaced \<Rightarrow> replace_params regexp_replace rest replaced)"

fun convertToOpenAPIPath :: "string \<Rightarrow> Context \<Rightarrow> string" where
  "convertToOpenAPIPath p EmptyContext = replace_colon_params p"
| "convertToOpenAPIPath p (RequestContext pathParams regexp_replace) =
     replace_params regexp_replace pathParams (replace_colon_params p)"

definition string_schema :: json where
  "string_schema = JObj [(''type'', JStr ''string'')]"

definition object_schema :: json where
  "object_schema = JObj [(''type'', JStr ''object'')]"

definition extractParametersFromPath :: "string \<Rightarrow> Parameter list" where
  "extractParametersFromPath p =
     map (\<lambda>param. \<lparr> name = drop 1 param, location = ''path'', required = True,
                     schema = string_schema \<rparr>)
       (match_colon_params p)"

definition json_content :: "json \<Rightarrow> json" where
  "json_content sch = JObj [(''application/json'', JObj [(''schema'', sch)])]"

definition message_schema :: json where
  "message_schema =
     JObj [(''type'', JStr ''object''),
           (''properties'', JObj [(''message'', string_schema)])]"

definition generateDefaultResponses :: json where
  "generateDefaultResponses =
     JObj [(''200'', JObj [(''description'', JStr ''Success''),
                           (''content'', json_content object_schema)]),
           (''400'', JObj [(''description'', JStr ''Bad Request''),
                           (''content'', json_content message_schema)]),
           (''500'', JObj [(''description'', JStr ''Internal Server Error''),
                           (''content'', json_content message_schema)])]"

definition generateTagFromPath :: "string \<Rightarrow> string" where
  "generateTagFromPath p =
     (let segments = filter (\<lambda>s. s \<noteq> [] \<and> \<not> startsWith s ''{'') (split p (CHR ''/''))
      in case segments of
           [] \<Rightarrow> ''default''
         | [s0] \<Rightarrow> s0
         | s0 # s1 # rest \<Rightarrow> (if s1 \<noteq> [] then s1 else s0))"

definition body_methods :: "string list" where
  "body_methods = [''post'', ''put'', ''patch'']"

text \<open>The result \<open>undefined\<close> of \<open>generateRequestBodyFromMethod\<close> is \<open>None\<close>.\<close>

definition generateRequestBodyFromMethod :: "string \<Rightarrow> RouteOptions \<Rightarrow> json option" where
  "generateRequestBodyFromMethod m opts =
     (if toLowerCase m \<in> set body_methods then
        (case opt_requestBody opts of
           Val b \<Rightarrow> (if truthy b then Some b else Some (JObj [(''content'', json_content object_schema)]))
         | _ \<Rightarrow> Some (JObj [(''content'', json_content object_schema)]))
      else None)"

section \<open>Registration\<close>

text \<open>
  The path as \<open>autoRegisterRoute\<close> stores it: converted, then without its last
  character when it ends with a slash and is not the root path.
\<close>

definition normalizedPath :: "string \<Rightarrow> string" where
  "normalizedPath p =
     (let openAPIPath = convertToOpenAPIPath p EmptyContext
      in if endsWith openAPIPath ''/'' \<and> openAPIPath \<noteq> ''/''
         then butlast openAPIPath else openAPIPath)"

definition autoRouteInfo :: "string \<Rightarrow> string \<Rightarrow> RouteOptions \<Rightarrow> RouteInfo" where
  "autoRouteInfo m p opts =
     \<lparr> method' = toLowerCase m,
       path = normalizedPath p,
       parameters = extractParametersFromPath (normalizedPath p),
       responses = generateDefaultResponses,
       tags = (case opt_tags opts of Val t \<Rightarrow> t | _ \<Rightarrow> [generateTagFromPath p]),
       summary = Val (case opt_summary opts of
                        Val s \<Rightarrow> (if s \<noteq> [] then s else toUpperCase m @ '' '' @ p)
                      | _ \<Rightarrow> toUpperCase m @ '' '' @ p),
       description = (case opt_description opts of Val d \<Rightarrow> Val d | _ \<Rightarrow> Undefined),
       zodSchema = Absent,
       requestBody = (case generateRequestBodyFromMethod m opts of
                        Some b \<Rightarrow> Val b | None \<Rightarrow> Undefined) \<rparr>"

definition autoRegisterRoute :: "HonoSwagger \<Rightarrow> string \<Rightarrow> string \<Rightarrow> RouteOptions \<Rightarrow> HonoSwagger" where
  "autoRegisterRoute st m p opts =
     (if shouldExcludePath st p then st
      else if isRouteDocumented st m (normalizedPath p) then st
      else addRoute st (autoRouteInfo m p opts))"

text \<open>
  The options of the public \<open>registerRoute\<close>; the whole argument may be missing. Its
  \<open>summary\<close> and \<open>description\<close> are accepted by the signature and not read by the body.
\<close>

record RegisterOptions =
  reg_tags :: "string list opt"
  reg_summary :: "string opt"
  reg_description :: "string opt"
  reg_parameters :: "Parameter list opt"
  reg_responses :: "json opt"
  reg_requestBody :: "json opt"

definition no_register_options :: RegisterOptions where
  "no_register_options =
     \<lparr> reg_tags = Absent, reg_summary = Absent, reg_description = Absent,
       reg_parameters = Absent, reg_responses = Absent, reg_requestBody = Absent \<rparr>"

definition registerRoute :: "HonoSwagger \<Rightarrow> string \<Rightarrow> string \<Rightarrow> RegisterOptions option \<Rightarrow> HonoSwagger" where
  "registerRoute st m p options_arg =
     (let opts = (case options_arg of Some os \<Rightarrow> os | None \<Rightarrow> no_register_options)
      in addRoute st
           \<lparr> method' = toLowerCase m,
             path = convertToOpenAPIPath p EmptyContext,
             parameters = (case reg_parameters opts of Val ps \<Rightarrow> ps | _ \<Rightarrow> []),
             responses = (case reg_responses opts of
                            Val r \<Rightarrow> (if truthy r then r else generateDefaultResponses)
                          | _ \<Rightarrow> generateDefaultResponses),
             tags = (case reg_tags opts of Val t \<Rightarrow> t | _ \<Rightarrow> [generateTagFromPath p]),
             summary = Absent,
             description = Absent,
             zodSchema = Absent,
             requestBody = (case reg_requestBody opts of Val b \<Rightarrow> Val b | _ \<Rightarrow> Undefined) \<rparr>)"

section \<open>Static scan registration\<close>

text \<open>The scanner's result types (\<open>src/routerScanner.ts\<close>).\<close>

record ScannedRoute =
  scanned_method :: string
  scanned_path :: string
  lineNumber :: nat

datatype ExportType = DefaultExport | NamedExport | BothExport

record RouterInfo =
  filePath :: string
  routerName :: string
  scanned_routes :: "ScannedRoute list"
  exportType :: ExportType

definition no_route_options :: RouteOptions where
  "no_route_options =
     \<lparr> opt_tags = Absent, opt_summary = Absent, opt_description = Absent,
       opt_deprecated = Absent, opt_requestBody = Absent \<rparr>"

text \<open>
  \<open>fileName.replace(/\.(ts|js|tsx|jsx)$/, '')\<close> removes one of the four extensions at
  the end of the name.
\<close>

definition strip_extension :: "string \<Rightarrow> string" where
  "strip_extension fileName =
     (case filter (\<lambda>e. endsWith fileName e) [''.ts'', ''.js'', ''.tsx'', ''.jsx''] of
        [] \<Rightarrow> fileName
      | e # es \<Rightarrow> take (length fileName - length e) fileName)"

definition generateBasePathFromFilePath :: "string \<Rightarrow> string" where
  "generateBasePathFromFilePath fp =
     (let pathParts = split fp (CHR ''/'');
          fileNameWithoutExt = strip_extension (last pathParts)
      in ''/api/'' @ fileNameWithoutExt)"

text \<open>The body of the inner loop of \<open>scanAndRegisterRouters\<close>, for one scanned route.\<close>

definition registerScannedRoute :: "RouterInfo \<Rightarrow> ScannedRoute \<Rightarrow> HonoSwagger \<Rightarrow> HonoSwagger" where
  "registerScannedRoute router r st =
     (let basePath = generateBasePathFromFilePath (filePath router);
          fullPath = basePath @ scanned_path r;
          routeOptions =
            \<lparr> opt_tags = Val [generateTagFromPath fullPath],
              opt_summary = Val (toUpperCase (scanned_method r) @ '' '' @ fullPath),
              opt_description = Val (''Auto-generated from '' @ filePath router),
              opt_deprecated = Absent,
              opt_requestBody =
                (case generateRequestBodyFromMethod (scanned_method r) no_route_options of
                   Some b \<Rightarrow> Val b | None \<Rightarrow> Undefined) \<rparr>
      in autoRegisterRoute st (scanned_method r) fullPath routeOptions)"

text \<open>The two loops of \<open>scanAndRegisterRouters\<close> over the routers a scan has returned.\<close>

definition registerScannedRouters :: "RouterInfo list \<Rightarrow> HonoSwagger \<Rightarrow> HonoSwagger" where
  "registerScannedRouters routers st =
     fold (\<lambda>router. fold (registerScannedRoute router) (scanned_routes router)) routers st"

section \<open>Runtime interception\<close>

text \<open>
  A handler argument of a verb call. A function may carry \<open>__swaggerOptions\<close> (set by
  \<open>documentRoute\<close>) and \<open>__swaggerRouteOptions\<close>; each is an options object or missing.
  Anything that is not a function is skipped by the wrappers.
\<close>

datatype Handler =
    HandlerFn (swaggerOptions: "RouteOptions option") (swaggerRouteOptions: "RouteOptions option")
  | NotAFunction

fun handler_step :: "Handler \<Rightarrow> RouteOptions \<Rightarrow> RouteOptions" where
  "handler_step NotAFunction routeOptions = routeOptions"
| "handler_step (HandlerFn so sro) routeOptions =
     (let ro1 = (case so of Some os \<Rightarrow> spread_options routeOptions os | None \<Rightarrow> routeOptions)
      in case sro of Some os \<Rightarrow> spread_options ro1 os | None \<Rightarrow> ro1)"

definition collectRouteOptions :: "Handler list \<Rightarrow> RouteOptions" where
  "collectRouteOptions handlers = fold handler_step handlers no_route_options"

text \<open>
  Router objects are told apart by their identity. The wrappers replace methods of
  these objects in place, so the state of the interception is a store: for every object
  the wrappers that have been put around its seven verb methods, the outermost first.
  \<open>hookIntoRouteMethods\<close> installs a \<open>MainWrapper\<close> (it records the call's path);
  \<open>hookIntoSubAppRoutes\<close> installs a \<open>SubAppWrapper\<close> (it records \<open>basePath + path\<close>).
  Only the \<open>route\<close> method of the application given to the constructor is wrapped
  (\<open>hookIntoRouteMethod\<close>).

  The framework's own methods are outside the repository: they add to the framework's
  routing table, do not call the replaced methods and do not touch the registry. What
  the wrappers do and what they hand on to the framework is written to a call log, in
  the order in which it happens.
\<close>

type_synonym app = nat

datatype wrapper = MainWrapper | SubAppWrapper string

text \<open>
  The first argument of a verb call, which the wrappers take as \<open>args[0]\<close> without a
  test: a path, or, in the framework's form of the call without a path (the form of a
  chained call), the first handler, a function given by its source text.
\<close>

datatype FirstArg = PathArg string | HandlerArg string

datatype event =
    Observed string string
  | DelegatedVerb app string FirstArg
  | DelegatedRoute app string app

record World =
  swagger :: HonoSwagger
  mainApp :: app
  verbWrappers :: "app \<Rightarrow> wrapper list"
  calls :: "event list"

definition methods :: "string list" where
  "methods = [''get'', ''post'', ''put'', ''delete'', ''patch'', ''head'', ''options'']"

text \<open>The constructor: the registry is empty and the main application is hooked.\<close>

definition new_World :: "SwaggerOptions \<Rightarrow> app \<Rightarrow> World" where
  "new_World os a =
     \<lparr> swagger = new_HonoSwagger os,
       mainApp = a,
       verbWrappers = (\<lambda>x. if x = a then [MainWrapper] else []),
       calls = [] \<rparr>"

text \<open>
  The path that a wrapper hands to \<open>autoRegisterRoute\<close>. The wrapper of the main
  application hands on \<open>args[0]\<close> as it is; when that is a function,
  \<open>shouldExcludePath\<close> calls \<open>path.startsWith\<close>, which a function does not have, and
  the \<open>TypeError\<close> leaves \<open>autoRegisterRoute\<close> and the wrapper before anything is
  stored. The wrapper of a sub-application computes \<open>basePath + path\<close> first, which for
  a function is the base path followed by the function's source text, a string.
\<close>

fun observed_path :: "wrapper \<Rightarrow> FirstArg \<Rightarrow> js_error + string" where
  "observed_path MainWrapper (PathArg p) = Inr p"
| "observed_path MainWrapper (HandlerArg src) = Inl TypeError"
| "observed_path (SubAppWrapper basePath) (PathArg p) = Inr (basePath @ p)"
| "observed_path (SubAppWrapper basePath) (HandlerArg src) = Inr (basePath @ src)"

text \<open>
  A call through the wrappers of a method, the outermost first, down to the
  framework's own method. No wrapper catches an exception: a wrapper that raises ends
  the call, the wrappers inside it and the framework's method are not reached, and what
  the wrappers outside it have stored stays. The result is the registry and the log
  after the call, and the exception if one was raised.
\<close>

fun wrapped_call ::
  "wrapper list \<Rightarrow> app \<Rightarrow> string \<Rightarrow> FirstArg \<Rightarrow> Handler list \<Rightarrow> HonoSwagger \<times> event list
     \<Rightarrow> (HonoSwagger \<times> event list) \<times> js_error option" where
  "wrapped_call [] a m arg hs (sw, log) = ((sw, log @ [DelegatedVerb a m arg]), None)"
| "wrapped_call (w # ws) a m arg hs (sw, log) =
     (let routeOptions = collectRouteOptions hs
      in case observed_path w arg of
           Inl e \<Rightarrow> ((sw, log), Some e)
         | Inr fullPath \<Rightarrow>
             wrapped_call ws a m arg hs
               (autoRegisterRoute sw m fullPath routeOptions, log @ [Observed m fullPath]))"

text \<open>
  The call \<open>a[m](arg, ...hs)\<close> on a router object, for a method name \<open>m\<close>: the
  state after the call, and the exception that reaches the caller if there is one.
\<close>

definition verb_call ::
  "World \<Rightarrow> app \<Rightarrow> string \<Rightarrow> FirstArg \<Rightarrow> Handler list \<Rightarrow> World \<times> js_error option" where
  "verb_call w a m arg hs =
     (let ws = (if m \<in> set methods then verbWrappers w a else []);
          (after, exception) = wrapped_call ws a m arg hs (swagger w, calls w)
      in (w\<lparr>swagger := fst after, calls := snd after\<rparr>, exception))"

definition hookIntoSubAppRoutes :: "World \<Rightarrow> string \<Rightarrow> app \<Rightarrow> World" where
  "hookIntoSubAppRoutes w basePath subApp =
     w\<lparr>verbWrappers := (verbWrappers w)(subApp := SubAppWrapper basePath # verbWrappers w subApp)\<rparr>"

text \<open>The call \<open>parent.route(p, subApp)\<close>.\<close>

definition route_call :: "World \<Rightarrow> app \<Rightarrow> string \<Rightarrow> app \<Rightarrow> World" where
  "route_call w parent p subApp =
     (let w1 = (if parent = mainApp w then hookIntoSubAppRoutes w p subApp else w)
      in w1\<lparr>calls := calls w1 @ [DelegatedRoute parent p subApp]\<rparr>)"

section \<open>Registration from the framework's routing table\<close>

text \<open>
  An entry of the framework's \<open>app.routes\<close>, which \<open>extractAllRoutes\<close> reads: the
  path, the method as the framework stores it, and whether the entry has a handler.
  An empty method stands for a missing one.
\<close>

record FrameworkRoute =
  fw_path :: string
  fw_method :: string
  fw_handler :: bool

definition extractRoute :: "FrameworkRoute \<Rightarrow> HonoSwagger \<Rightarrow> HonoSwagger" where
  "extractRoute r st =
     (if fw_path r \<noteq> [] \<and> fw_handler r then
        (if fw_path r = ''/*'' \<or> startsWith (fw_path r) ''/swagger-ui'' then st
         else
           (let openAPIPath = convertToOpenAPIPath (fw_path r) EmptyContext;
                m = (if fw_method r \<noteq> [] then fw_method r else ''get'');
                routeOptions =
                  \<lparr> opt_tags = Val [generateTagFromPath (fw_path r)],
                    opt_summary = Val (toUpperCase m @ '' '' @ fw_path r),
                    opt_description = Val ''Auto-generated from main application'',
                    opt_deprecated = Absent,
                    opt_requestBody =
                      (case generateRequestBodyFromMethod m no_route_options of
                         Some b \<Rightarrow> Val b | None \<Rightarrow> Undefined) \<rparr>
            in autoRegisterRoute st m openAPIPath routeOptions))
      else st)"

definition extractAllRoutes :: "FrameworkRoute list \<Rightarrow> HonoSwagger \<Rightarrow> HonoSwagger" where
  "extractAllRoutes fw_routes st = fold extractRoute fw_routes st"

section \<open>The schema converter \<open>HonoSwaggerAnalyzer.zodToOpenAPI\<close>\<close>

text \<open>
  The fragments that \<open>zodToOpenAPI\<close> builds are objects over a fixed set of keys; a
  key that is not set is \<open>None\<close>. Two fragments are equal when they hold the same
  keys with the same values, whatever the order in which the keys were assigned.
\<close>

datatype SchemaFragment = SchemaFragment
  (frag_type: "string option")
  (frag_format: "string option")
  (frag_minLength: "int option")
  (frag_maxLength: "int option")
  (frag_pattern: "string option")
  (frag_minimum: "int option")
  (frag_maximum: "int option")
  (frag_properties: "(string \<times> SchemaFragment) list option")
  (frag_required: "string list option")
  (frag_items: "SchemaFragment option")
  (frag_enum: "json list option")
  (frag_oneOf: "SchemaFragment list option")
  (frag_default: "json option")

definition empty_fragment :: SchemaFragment where
  "empty_fragment =
     SchemaFragment None None None None None None None None None None None None None"

text \<open>The assignment \<open>f.key = v\<close>, one function for each key.\<close>

definition set_type :: "string \<Rightarrow> SchemaFragment \<Rightarrow> SchemaFragment" where
  "set_type v f =
     (case f of SchemaFragment x1 x2 x3 x4 x5 x6 x7 x8 x9 x10 x11 x12 x13 \<Rightarrow>
        SchemaFragment (Some v) x2 x3 x4 x5 x6 x7 x8 x9 x10 x11 x12 x13)"

definition set_format :: "string \<Rightarrow> SchemaFragment \<Rightarrow> SchemaFragment" where
  "set_format v f =
     (case f of SchemaFragment x1 x2 x3 x4 x5 x6 x7 x8 x9 x10 x11 x12 x13 \<Rightarrow>
        SchemaFragment x1 (Some v) x3 x4 x5 x6 x7 x8 x9 x10 x11 x12 x13)"

definition set_minLength :: "int \<Rightarrow> SchemaFragment \<Rightarrow> SchemaFragment" where
  "set_minLength v f =
     (case f of SchemaFragment x1 x2 x3 x4 x5 x6 x7 x8 x9 x10 x11 x12 x13 \<Rightarrow>
        SchemaFragment x1 x2 (Some v) x4 x5 x6 x7 x8 x9 x10 x11 x12 x13)"

definition set_maxLength :: "int \<Rightarrow> SchemaFragment \<Rightarrow> SchemaFragment" where
  "set_maxLength v f =
     (case f of SchemaFragment x1 x2 x3 x4 x5 x6 x7 x8 x9 x10 x11 x12 x13 \<Rightarrow>
        SchemaFragment x1 x2 x3 (Some v) x5 x6 x7 x8 x9 x10 x11 x12 x13)"

definition set_pattern :: "string \<Rightarrow> SchemaFragment \<Rightarrow> SchemaFragment" where
  "set_pattern v f =
     (case f of SchemaFragment x1 x2 x3 x4 x5 x6 x7 x8 x9 x10 x11 x12 x13 \<Rightarrow>
        SchemaFragment x1 x2 x3 x4 (Some v) x6 x7 x8 x9 x10 x11 x12 x13)"

definition set_minimum :: "int \<Rightarrow> SchemaFragment \<Rightarrow> SchemaFragment" where
  "set_minimum v f =
     (case f of SchemaFragment x1 x2 x3 x4 x5 x6 x7 x8 x9 x10 x11 x12 x13 \<Rightarrow>
        SchemaFragment x1 x2 x3 x4 x5 (Some v) x7 x8 x9 x10 x11 x12 x13)"

definition set_maximum :: "int \<Rightarrow> SchemaFragment \<Rightarrow> SchemaFragment" where
  "set_maximum v f =
     (case f of SchemaFragment x1 x2 x3 x4 x5 x6 x7 x8 x9 x10 x11 x12 x13 \<Rightarrow>
        SchemaFragment x1 x2 x3 x4 x5 x6 (Some v) x8 x9 x10 x11 x12 x13)"

definition set_properties :: "(string \<times> SchemaFragment) list \<Rightarrow> SchemaFragment \<Rightarrow> SchemaFragment" where
  "set_properties v f =
     (case f of SchemaFragment x1 x2 x3 x4 x5 x6 x7 x8 x9 x10 x11 x12 x13 \<Rightarrow>
        SchemaFragment x1 x2 x3 x4 x5 x6 x7 (Some v) x9 x10 x11 x12 x13)"

definition set_required :: "string list \<Rightarrow> SchemaFragment \<Rightarrow> SchemaFragment" where
  "set_required v f =
     (case f of SchemaFragment x1 x2 x3 x4 x5 x6 x7 x8 x9 x10 x11 x12 x13 \<Rightarrow>
        SchemaFragment x1 x2 x3 x4 x5 x6 x7 x8 (Some v) x10 x11 x12 x13)"

definition set_items :: "SchemaFragment \<Rightarrow> SchemaFragment \<Rightarrow> SchemaFragment" where
  "set_items v f =
     (case f of SchemaFragment x1 x2 x3 x4 x5 x6 x7 x8 x9 x10 x11 x12 x13 \<Rightarrow>
        SchemaFragment x1 x2 x3 x4 x5 x6 x7 x8 x9 (Some v) x11 x12 x13)"

definition set_enum :: "json list \<Rightarrow> SchemaFragment \<Rightarrow> SchemaFragment" where
  "set_enum v f =
     (case f of SchemaFragment x1 x2 x3 x4 x5 x6 x7 x8 x9 x10 x11 x12 x13 \<Rightarrow>
        SchemaFragment x1 x2 x3 x4 x5 x6 x7 x8 x9 x10 (Some v) x12 x13)"

definition set_oneOf :: "SchemaFragment list \<Rightarrow> SchemaFragment \<Rightarrow> SchemaFragment" where
  "set_oneOf v f =
     (case f of SchemaFragment x1 x2 x3 x4 x5 x6 x7 x8 x9 x10 x11 x12 x13 \<Rightarrow>
        SchemaFragment x1 x2 x3 x4 x5 x6 x7 x8 x9 x10 x11 (Some v) x13)"

definition set_default :: "json \<Rightarrow> SchemaFragment \<Rightarrow> SchemaFragment" where
  "set_default v f =
     (case f of SchemaFragment x1 x2 x3 x4 x5 x6 x7 x8 x9 x10 x11 x12 x13 \<Rightarrow>
        SchemaFragment x1 x2 x3 x4 x5 x6 x7 x8 x9 x10 x11 x12 (Some v))"

text \<open>The fallback \<open>{ type: 'object' }\<close>.\<close>

definition object_fragment :: SchemaFragment where
  "object_fragment = set_type ''object'' empty_fragment"

text \<open>
  An element of \<open>schema._def.checks\<close>, told apart by its \<open>kind\<close>; a regex check
  carries \<open>check.regex.source\<close>, a check of any other kind its kind.
\<close>

datatype ZodCheck =
    CheckEmail
  | CheckUrl
  | CheckMin int
  | CheckMax int
  | CheckRegex string
  | CheckInt
  | CheckOther string

text \<open>
  The schema nodes, by the class that \<open>instanceof\<close> finds. \<open>ZodObject\<close> carries
  \<open>Object.entries(schema._def.shape())\<close>. \<open>ZodDefault\<close> carries the outcome of
  calling \<open>schema._def.defaultValue()\<close>, a function that the schema's author may have
  supplied: the value it returns, or the exception it raises. \<open>ZodOther\<close> is an
  instance of any class without a branch. \<open>ZodMalformed\<close> is an instance of one of the
  classes with a branch whose internal state is damaged, so that the branch raises a
  \<open>TypeError\<close> when it reads \<open>_def\<close>.
\<close>

datatype ZodType =
    ZodString "ZodCheck list"
  | ZodNumber "ZodCheck list"
  | ZodBoolean
  | ZodObject "(string \<times> ZodType) list"
  | ZodArray ZodType
  | ZodOptional ZodType
  | ZodDefault ZodType "js_error + json"
  | ZodEnum "string list"
  | ZodUnion "ZodType list"
  | ZodLiteral json
  | ZodOther
  | ZodMalformed

fun is_ZodOptional :: "ZodType \<Rightarrow> bool" where
  "is_ZodOptional (ZodOptional t) = True"
| "is_ZodOptional t = False"

fun is_ZodDefault :: "ZodType \<Rightarrow> bool" where
  "is_ZodDefault (ZodDefault t d) = True"
| "is_ZodDefault t = False"

text \<open>The \<open>switch (check.kind)\<close> of the string branch and of the number branch.\<close>

fun string_check :: "ZodCheck \<Rightarrow> SchemaFragment \<Rightarrow> SchemaFragment" where
  "string_check CheckEmail stringSchema = set_format ''email'' stringSchema"
| "string_check CheckUrl stringSchema = set_format ''uri'' stringSchema"
| "string_check (CheckMin v) stringSchema = set_minLength v stringSchema"
| "string_check (CheckMax v) stringSchema = set_maxLength v stringSchema"
| "string_check (CheckRegex src) stringSchema = set_pattern src stringSchema"
| "string_check c stringSchema = stringSchema"

fun number_check :: "ZodCheck \<Rightarrow> SchemaFragment \<Rightarrow> SchemaFragment" where
  "number_check (CheckMin v) numberSchema = set_minimum v numberSchema"
| "number_check (CheckMax v) numberSchema = set_maximum v numberSchema"
| "number_check CheckInt numberSchema = set_type ''integer'' numberSchema"
| "number_check c numberSchema = numberSchema"

text \<open>\<open>typeof\<close> of a literal value.\<close>

fun typeof :: "json \<Rightarrow> string" where
  "typeof (JBool b) = ''boolean''"
| "typeof (JNum n) = ''number''"
| "typeof (JStr s) = ''string''"
| "typeof v = ''object''"

text \<open>
  The outcome of the \<open>try\<close> block is an exception, no result (no branch returned) or
  a fragment, together with the warnings that the nested calls have written with
  \<open>console.warn\<close>. \<open>recover\<close> is what follows the block: the \<open>catch\<close> writes one
  more warning, and both an exception and a block without result end in the fallback.
\<close>

type_synonym attempt = "(js_error + SchemaFragment option) \<times> js_error list"

definition recover :: "attempt \<Rightarrow> SchemaFragment \<times> js_error list" where
  "recover r =
     (case r of
        (Inl e, warnings) \<Rightarrow> (object_fragment, warnings @ [e])
      | (Inr None, warnings) \<Rightarrow> (object_fragment, warnings)
      | (Inr (Some f), warnings) \<Rightarrow> (f, warnings))"

text \<open>
  The \<open>try\<close> block. A nested call \<open>this.zodToOpenAPI(t)\<close> on a node \<open>t\<close> is
  \<open>recover (try_block t)\<close>.
\<close>

fun try_block :: "ZodType \<Rightarrow> attempt" where
  "try_block (ZodString checks) =
     (Inr (Some (fold string_check checks (set_type ''string'' empty_fragment))), [])"
| "try_block (ZodNumber checks) =
     (Inr (Some (fold number_check checks (set_type ''number'' empty_fragment))), [])"
| "try_block ZodBoolean = (Inr (Some (set_type ''boolean'' empty_fragment)), [])"
| "try_block (ZodObject shape) =
     (let converted = map (\<lambda>(key, v). (key, recover (try_block v))) shape;
          properties = map (\<lambda>(key, r). (key, fst r)) converted;
          required = map fst (filter (\<lambda>(key, v). \<not> is_ZodOptional v \<and> \<not> is_ZodDefault v) shape);
          objectSchema = set_properties properties (set_type ''object'' empty_fragment)
      in (Inr (Some (if length required > 0 then set_required required objectSchema
                     else objectSchema)),
          concat (map (\<lambda>(key, r). snd r) converted)))"
| "try_block (ZodArray t) =
     (let r = recover (try_block t)
      in (Inr (Some (set_items (fst r) (set_type ''array'' empty_fragment))), snd r))"
| "try_block (ZodOptional t) =
     (let r = recover (try_block t) in (Inr (Some (fst r)), snd r))"
| "try_block (ZodDefault t d) =
     (let r = recover (try_block t)
      in case d of
           Inl e \<Rightarrow> (Inl e, snd r)
         | Inr v \<Rightarrow> (Inr (Some (set_default v (fst r))), snd r))"
| "try_block (ZodEnum vs) =
     (Inr (Some (set_enum (map JStr vs) (set_type ''string'' empty_fragment))), [])"
| "try_block (ZodUnion opts) =
     (let converted = map (\<lambda>option. recover (try_block option)) opts
      in (Inr (Some (set_oneOf (map fst converted) empty_fragment)),
          concat (map snd converted)))"
| "try_block (ZodLiteral v) =
     (Inr (Some (set_enum [v] (set_type (typeof v) empty_fragment))), [])"
| "try_block ZodOther = (Inr None, [])"
| "try_block ZodMalformed = (Inl TypeError, [])"

text \<open>
  \<open>zodToOpenAPI\<close>: \<open>None\<close> is a \<open>null\<close> or \<open>undefined\<close> argument. The result is
  the returned fragment and the warnings written meanwhile.
\<close>

definition zodToOpenAPI :: "ZodType option \<Rightarrow> SchemaFragment \<times> js_error list" where
  "zodToOpenAPI s =
     (case s of
        None \<Rightarrow> (object_fragment, [])
      | Some z \<Rightarrow> recover (try_block z))"

text \<open>
  The exceptions that the nodes of a schema raise while it is converted, in the order
  of the conversion: a damaged node raises a \<open>TypeError\<close>, and a default whose
  function throws raises what the function throws, after the exceptions of its inner
  schema.
\<close>

fun raised_errors :: "ZodType \<Rightarrow> js_error list" where
  "raised_errors (ZodObject shape) = concat (map (\<lambda>(key, v). raised_errors v) shape)"
| "raised_errors (ZodArray t) = raised_errors t"
| "raised_errors (ZodOptional t) = raised_errors t"
| "raised_errors (ZodDefault t d) = raised_errors t @ (case d of Inl e \<Rightarrow> [e] | Inr v \<Rightarrow> [])"
| "raised_errors (ZodUnion opts) = concat (map raised_errors opts)"
| "raised_errors ZodMalformed = [TypeError]"
| "raised_errors z = []"

section \<open>The registry invariant\<close>

text \<open>
  The key of an entry, and the invariant that no two entries of the registry share a
  key; \<open>entries_for\<close> lists the entries stored under a key.
\<close>

definition route_key :: "RouteInfo \<Rightarrow> string \<times> string" where
  "route_key r = (method' r, path r)"

definition unique_keys :: "HonoSwagger \<Rightarrow> bool" where
  "unique_keys st = distinct (map route_key (routes st))"

definition entries_for :: "HonoSwagger \<Rightarrow> string \<Rightarrow> string \<Rightarrow> RouteInfo list" where
  "entries_for st m p = filter (same_route m p) (routes st)"

section \<open>Paths without parameters left\<close>

text \<open>A string in which no colon is followed by a word character.\<close>

fun colon_free :: "string \<Rightarrow> bool" where
  "colon_free [] = True"
| "colon_free [c] = True"
| "colon_free (c # d # ds) = (\<not> (c = CHR '':'' \<and> is_word_char d) \<and> colon_free (d # ds))"

section \<open>Concrete inputs\<close>

definition st0 :: HonoSwagger where
  "st0 = new_HonoSwagger default_options"

definition docs_options :: SwaggerOptions where
  "docs_options = \<lparr> route = ''/docs'', excludePaths = [''/internal'', ''/health''] \<rparr>"

definition route_x :: RouteInfo where
  "route_x =
     \<lparr> method' = ''get'', path = ''/x'', parameters = [], responses = JObj [], tags = [],
       summary = Absent, description = Absent, zodSchema = Absent, requestBody = Absent \<rparr>"

definition id_parameter :: Parameter where
  "id_parameter =
     \<lparr> name = ''id'', location = ''query'', required = False, schema = string_schema \<rparr>"

definition route_x_documented :: RouteInfo where
  "route_x_documented =
     \<lparr> method' = ''get'', path = ''/x'', parameters = [id_parameter], responses = JObj [],
       tags = [''things''], summary = Val ''List things'', description = Val ''All the things'',
       zodSchema = Absent, requestBody = Absent \<rparr>"

definition route_x_bare :: RouteInfo where
  "route_x_bare =
     \<lparr> method' = ''get'', path = ''/x'', parameters = [], responses = JObj [],
       tags = [], summary = Val [], description = Undefined,
       zodSchema = Absent, requestBody = Absent \<rparr>"

definition documented_options :: RouteOptions where
  "documented_options =
     \<lparr> opt_tags = Val [''Users''], opt_summary = Val ''Get user'',
       opt_description = Val ''Get a user by id'', opt_deprecated = Absent,
       opt_requestBody = Absent \<rparr>"

definition st_users :: HonoSwagger where
  "st_users = autoRegisterRoute st0 ''get'' ''/users/:id'' no_route_options"

definition roles_get_id :: ScannedRoute where
  "roles_get_id = \<lparr> scanned_method = ''get'', scanned_path = ''/:id'', lineNumber = 9 \<rparr>"

definition roles_router :: RouterInfo where
  "roles_router =
     \<lparr> filePath = ''src/routes/roles.ts'', routerName = ''rolesRouter'',
       scanned_routes = [roles_get_id], exportType = DefaultExport \<rparr>"

definition w0 :: World where
  "w0 = new_World default_options 0"

definition get_user_handlers :: "Handler list" where
  "get_user_handlers = [HandlerFn (Some documented_options) None, HandlerFn None None]"

definition w_user :: World where
  "w_user = fst (verb_call w0 0 ''get'' (PathArg ''/users/:id'') get_user_handlers)"

definition hono_users_route :: FrameworkRoute where
  "hono_users_route = \<lparr> fw_path = ''/users/:id'', fw_method = ''GET'', fw_handler = True \<rparr>"

definition nested_world :: World where
  "nested_world = route_call (route_call w0 0 ''/api'' 1) 1 ''/v1'' 2"


section \<open>Facts about the registry\<close>

lemma spread_opt_idem: "spread_opt (spread_opt a b) b = spread_opt a b"
  by (cases b) (simp_all add: spread_opt_def)

lemma spread_opt_self: "spread_opt a a = a"
  by (cases a) (simp_all add: spread_opt_def)

lemma spread_route_self: "spread_route a a = a"
  by (simp add: spread_route_def spread_opt_self)

lemma findIndex_Some: "findIndex P xs = Some i \<Longrightarrow> i < length xs \<and> P (xs ! i) \<and> (\<forall>j<i. \<not> P (xs ! j))"
proof (induction xs arbitrary: i)
  case Nil
  then show ?case by simp
next
  case (Cons x xs)
  show ?case
  proof (cases "P x")
    case True
    with Cons.prems show ?thesis by simp
  next
    case False
    with Cons.prems obtain k where k: "findIndex P xs = Some k" "i = Suc k"
      by (auto split: option.splits)
    from Cons.IH[OF k(1)] False k(2) show ?thesis
      by (auto simp: nth_Cons split: nat.splits)
  qed
qed

lemma findIndex_None: "findIndex P xs = None \<longleftrightarrow> (\<forall>x\<in>set xs. \<not> P x)"
  by (induction xs) (auto split: option.splits)

lemma findIndex_first:
  "i < length xs \<Longrightarrow> P (xs ! i) \<Longrightarrow> (\<forall>j<i. \<not> P (xs ! j)) \<Longrightarrow> findIndex P xs = Some i"
proof (induction xs arbitrary: i)
  case Nil
  then show ?case by simp
next
  case (Cons x xs)
  show ?case
  proof (cases i)
    case 0
    with Cons.prems show ?thesis by simp
  next
    case (Suc k)
    with Cons.prems have "\<not> P x" by auto
    moreover have "findIndex P xs = Some k"
      using Cons.prems Suc by (intro Cons.IH) auto
    ultimately show ?thesis using Suc by simp
  qed
qed

lemma findIndex_update:
  assumes "findIndex P xs = Some i" and "P y"
  shows "findIndex P (xs[i := y]) = Some i"
proof -
  from findIndex_Some[OF assms(1)] have i: "i < length xs" and before: "\<forall>j<i. \<not> P (xs ! j)"
    by auto
  show ?thesis
    using i before assms(2) by (intro findIndex_first) auto
qed

lemma findIndex_append_new:
  assumes "findIndex P xs = None" and "P y"
  shows "findIndex P (xs @ [y]) = Some (length xs)"
proof -
  from assms(1) have "\<forall>x\<in>set xs. \<not> P x" by (simp add: findIndex_None)
  then have "\<forall>j<length xs. \<not> P ((xs @ [y]) ! j)" by (simp add: nth_append)
  with assms(2) show ?thesis by (intro findIndex_first) auto
qed

lemma findIndex_Some_same: 
  "findIndex (same_route m p) xs = Some i \<Longrightarrow> i < length xs \<and> route_key (xs ! i) = (m, p)"
  using findIndex_Some[of "same_route m p" xs i] by (auto simp: same_route_def route_key_def)

lemma same_route_key: "same_route m p = (\<lambda>r. route_key r = (m, p))"
  by (auto simp: same_route_def route_key_def fun_eq_iff)

lemma filter_key_update:
  assumes "distinct (map route_key xs)" "i < length xs" "route_key (xs ! i) = k" "route_key y = k"
  shows "filter (\<lambda>r. route_key r = k) (xs[i := y]) = [y]"
proof -
  have xs: "xs = take i xs @ xs ! i # drop (Suc i) xs"
    using assms(2) by (simp add: id_take_nth_drop)
  have upd: "xs[i := y] = take i xs @ y # drop (Suc i) xs"
    using assms(2) by (simp add: upd_conv_take_nth_drop)
  have "distinct (map route_key (take i xs) @ route_key (xs ! i) # map route_key (drop (Suc i) xs))"
    using assms(1) xs by (metis list.simps(9) map_append)
  then have "k \<notin> route_key ` set (take i xs)" "k \<notin> route_key ` set (drop (Suc i) xs)"
    using assms(3) by auto
  then have "filter (\<lambda>r. route_key r = k) (take i xs) = []"
    "filter (\<lambda>r. route_key r = k) (drop (Suc i) xs) = []"
    by (auto simp: filter_empty_conv)
  with upd assms(4) show ?thesis by simp
qed

lemma distinct_key_update:
  assumes "distinct (map route_key xs)" "i < length xs" "route_key y = route_key (xs ! i)"
  shows "distinct (map route_key (xs[i := y]))"
proof -
  have "map route_key (xs[i := y]) = (map route_key xs)[i := route_key y]"
    by (simp add: map_update)
  also have "\<dots> = map route_key xs"
    using assms(2,3) by (simp add: list_update_same_conv)
  finally show ?thesis using assms(1) by simp
qed

lemma addRoute_unique_keys: "unique_keys st \<Longrightarrow> unique_keys (addRoute st r)"
proof (cases "findIndex (same_route (method' r) (path r)) (routes st)")
  case None
  assume u: "unique_keys st"
  from None have "route_key r \<notin> route_key ` set (routes st)"
    by (auto simp: findIndex_None same_route_def route_key_def)
  with u None show ?thesis by (simp add: addRoute_def unique_keys_def)
next
  case (Some i)
  assume u: "unique_keys st"
  from findIndex_Some_same[OF Some] have i: "i < length (routes st)"
    and k: "route_key (routes st ! i) = (method' r, path r)" by auto
  have "route_key (spread_route (routes st ! i) r) = route_key (routes st ! i)"
    using k by (simp add: route_key_def spread_route_def)
  with u i Some show ?thesis
    by (simp add: addRoute_def unique_keys_def distinct_key_update)
qed

lemma new_unique_keys: "unique_keys (new_HonoSwagger os)"
  by (simp add: unique_keys_def new_HonoSwagger_def)

section \<open>Facts about path conversion\<close>

lemmas word_char_defs = is_word_char_def upper_letters_def lower_letters_def digit_chars_def

lemma colon_not_word: "\<not> is_word_char (CHR '':'')"
  by (simp add: word_char_defs)

lemma punct_not_word:
  "\<not> is_word_char (CHR ''{'')" "\<not> is_word_char (CHR ''}'')" "\<not> is_word_char (CHR ''/'')"
  by (simp_all add: word_char_defs)

lemma colon_free_Cons:
  "colon_free (c # cs) \<longleftrightarrow> \<not> (c = CHR '':'' \<and> takeWhile is_word_char cs \<noteq> []) \<and> colon_free cs"
  by (cases cs) auto

lemma colon_free_match: "colon_free s \<Longrightarrow> match_colon_params s = []"
  by (induction s rule: match_colon_params.induct) (auto simp: colon_free_Cons)

lemma colon_free_prefix:
  "\<forall>c\<in>set w. c \<noteq> CHR '':'' \<Longrightarrow> colon_free (w @ r) = colon_free r"
  by (induction w) (auto simp: colon_free_Cons)

lemma takeWhile_replace_empty:
  "takeWhile is_word_char cs = [] \<Longrightarrow> takeWhile is_word_char (replace_colon_params cs) = []"
  by (cases cs) (auto simp: punct_not_word)

lemma colon_free_replace: "colon_free (replace_colon_params s)"
proof (induction s rule: replace_colon_params.induct)
  case 1
  show ?case by simp
next
  case (2 c cs)
  show ?case
  proof (cases "c = CHR '':'' \<and> takeWhile is_word_char cs \<noteq> []")
    case True
    let ?w = "''{'' @ takeWhile is_word_char cs @ ''}''"
    have "\<forall>x\<in>set ?w. x \<noteq> CHR '':''"
      using colon_not_word by (auto dest: set_takeWhileD)
    then have "colon_free (?w @ replace_colon_params (dropWhile is_word_char cs))
        = colon_free (replace_colon_params (dropWhile is_word_char cs))"
      by (rule colon_free_prefix)
    with True 2 show ?thesis by simp
  next
    case False
    with 2 show ?thesis
      by (auto simp: colon_free_Cons dest: takeWhile_replace_empty)
  qed
qed

lemma colon_free_butlast: "colon_free s \<Longrightarrow> colon_free (butlast s)"
  by (induction s rule: colon_free.induct) auto

lemma colon_free_normalizedPath: "colon_free (normalizedPath p)"
  by (simp add: normalizedPath_def Let_def colon_free_replace
      colon_free_butlast)

lemma no_parameters_normalized: "extractParametersFromPath (normalizedPath p) = []"
  by (simp add: extractParametersFromPath_def colon_free_match colon_free_normalizedPath)

lemma replace_no_colon:
  "\<forall>c\<in>set w. c \<noteq> CHR '':'' \<Longrightarrow> replace_colon_params (w @ r) = w @ replace_colon_params r"
  by (induction w) auto

lemma replace_param:
  assumes "n \<noteq> []" "list_all is_word_char n" "r = [] \<or> \<not> is_word_char (hd r)"
  shows "replace_colon_params (CHR '':'' # n @ r) = ''{'' @ n @ ''}'' @ replace_colon_params r"
proof -
  have all: "\<forall>x\<in>set n. is_word_char x" using assms(2) by (simp add: list_all_iff)
  have r: "takeWhile is_word_char r = []" "dropWhile is_word_char r = r"
    using assms(3) by (cases r; auto)+
  have "takeWhile is_word_char (n @ r) = n" "dropWhile is_word_char (n @ r) = r"
    using all r by (simp_all add: takeWhile_append2 dropWhile_append2)
  with assms(1) show ?thesis by simp
qed

lemma takeWhile_append_stop:
  "takeWhile P X = [] \<Longrightarrow> takeWhile P (cs @ X) = takeWhile P cs"
  by (induction cs) auto

lemma dropWhile_append_stop:
  "takeWhile P X = [] \<Longrightarrow> dropWhile P (cs @ X) = dropWhile P cs @ X"
  by (induction cs) (auto simp: takeWhile_eq_Nil_iff dropWhile_eq_self_iff)

lemma replace_append:
  assumes "takeWhile is_word_char X = []"
  shows "replace_colon_params (pre @ X) = replace_colon_params pre @ replace_colon_params X"
proof (induction pre rule: replace_colon_params.induct)
  case 1
  show ?case by simp
next
  case (2 c cs)
  note tw = takeWhile_append_stop[OF assms, of cs] and dw = dropWhile_append_stop[OF assms, of cs]
  show ?case
  proof (cases "c = CHR '':'' \<and> takeWhile is_word_char cs \<noteq> []")
    case True
    with 2(1) have "replace_colon_params (dropWhile is_word_char cs @ X)
        = replace_colon_params (dropWhile is_word_char cs) @ replace_colon_params X"
      by simp
    with True show ?thesis by (simp add: tw dw)
  next
    case False
    with 2(2) have "replace_colon_params (cs @ X) = replace_colon_params cs @ replace_colon_params X"
      by simp
    with False show ?thesis by (auto simp: tw)
  qed
qed

lemma replace_every_parameter:
  assumes "n \<noteq> []" "list_all is_word_char n" "takeWhile is_word_char rest = []"
  shows "replace_colon_params (pre @ CHR '':'' # n @ rest)
           = replace_colon_params pre @ ''{'' @ n @ ''}'' @ replace_colon_params rest"
proof -
  have "takeWhile is_word_char (CHR '':'' # n @ rest) = []"
    by (simp add: colon_not_word)
  then have "replace_colon_params (pre @ CHR '':'' # n @ rest)
      = replace_colon_params pre @ replace_colon_params (CHR '':'' # n @ rest)"
    by (rule replace_append)
  moreover have "rest = [] \<or> \<not> is_word_char (hd rest)"
    using assms(3) by (cases rest) (auto split: if_splits)
  ultimately show ?thesis
    using replace_param[OF assms(1,2)] by simp
qed

lemma endsWith_slash: "endsWith s ''/'' \<longleftrightarrow> s \<noteq> [] \<and> last s = CHR ''/''"
proof (cases s rule: rev_cases)
  case Nil
  then show ?thesis by (simp add: endsWith_def)
next
  case (snoc ys y)
  then show ?thesis by (simp add: endsWith_def)
qed

lemma endsWith_two_slashes:
  "endsWith s ''//'' \<longleftrightarrow> butlast s \<noteq> [] \<and> last (butlast s) = CHR ''/'' \<and> last s = CHR ''/''"
proof (cases s rule: rev_cases)
  case Nil
  then show ?thesis by (simp add: endsWith_def)
next
  case (snoc ys y)
  show ?thesis
  proof (cases ys rule: rev_cases)
    case Nil
    with snoc show ?thesis by (simp add: endsWith_def)
  next
    case (snoc zs z)
    with \<open>s = ys @ [y]\<close> show ?thesis by (auto simp: endsWith_def butlast_append)
  qed
qed

lemma normalizedPath_trailing:
  "endsWith (normalizedPath p) ''/'' \<longleftrightarrow>
     convertToOpenAPIPath p EmptyContext = ''/'' \<or> endsWith (convertToOpenAPIPath p EmptyContext) ''//''"
proof -
  let ?c = "convertToOpenAPIPath p EmptyContext"
  show ?thesis
  proof (cases "endsWith ?c ''/'' \<and> ?c \<noteq> ''/''")
    case True
    then have n: "normalizedPath p = butlast ?c" by (simp add: normalizedPath_def Let_def)
    from True have "?c \<noteq> []" "last ?c = CHR ''/''" by (simp_all add: endsWith_slash)
    with True show ?thesis
      by (simp add: n endsWith_slash endsWith_two_slashes)
  next
    case False
    then have n: "normalizedPath p = ?c" by (auto simp: normalizedPath_def Let_def)
    from False show ?thesis
      by (auto simp: n endsWith_slash endsWith_two_slashes)
  qed
qed

section \<open>Facts about registration\<close>

lemma addRoute_entry:
  "\<exists>e\<in>set (routes (addRoute st r)).
     method' e = method' r \<and> path e = path r \<and> parameters e = parameters r"
proof (cases "findIndex (same_route (method' r) (path r)) (routes st)")
  case None
  then show ?thesis by (simp add: addRoute_def)
next
  case (Some i)
  from findIndex_Some[OF Some] have i: "i < length (routes st)" by simp
  let ?e = "spread_route (routes st ! i) r"
  have "?e \<in> set ((routes st)[i := ?e])"
    using i by (simp add: set_update_memI)
  moreover have "method' ?e = method' r \<and> path ?e = path r \<and> parameters ?e = parameters r"
    by (simp add: spread_route_def)
  ultimately show ?thesis
    using Some by (auto simp: addRoute_def)
qed

lemma autoRegisterRoute_stored:
  assumes "\<not> shouldExcludePath st p" and "\<not> isRouteDocumented st m (normalizedPath p)"
  shows "\<exists>r\<in>set (routes (autoRegisterRoute st m p opts)).
           method' r = toLowerCase m \<and> path r = normalizedPath p \<and> parameters r = []"
proof -
  have "autoRegisterRoute st m p opts = addRoute st (autoRouteInfo m p opts)"
    using assms by (simp add: autoRegisterRoute_def)
  moreover have "method' (autoRouteInfo m p opts) = toLowerCase m"
    "path (autoRouteInfo m p opts) = normalizedPath p"
    "parameters (autoRouteInfo m p opts) = []"
    by (simp_all add: autoRouteInfo_def no_parameters_normalized)
  ultimately show ?thesis
    using addRoute_entry[of st "autoRouteInfo m p opts"] by simp
qed

lemma autoRegisterRoute_excluded:
  "shouldExcludePath st p \<Longrightarrow> autoRegisterRoute st m p opts = st"
  by (simp add: autoRegisterRoute_def)

lemma isRouteDocumented_iff:
  "isRouteDocumented st m p \<longleftrightarrow> (\<exists>r\<in>set (routes st). method' r = m \<and> path r = p)"
  by (auto simp: isRouteDocumented_def list_ex_iff same_route_def)

text \<open>
  When the registry holds an entry whose method is spelled as the call passes it,
  \<open>autoRegisterRoute\<close> returns the state it was given.
\<close>

lemma autoRegisterRoute_documented_unchanged:
  "(\<exists>r\<in>set (routes st). method' r = m \<and> path r = normalizedPath p) \<Longrightarrow>
     autoRegisterRoute st m p opts = st"
  by (simp add: autoRegisterRoute_def isRouteDocumented_iff)

lemma autoRegisterRoute_unique_keys:
  "unique_keys st \<Longrightarrow> unique_keys (autoRegisterRoute st m p opts)"
  by (simp add: autoRegisterRoute_def addRoute_unique_keys)

lemma registerRoute_unique_keys:
  "unique_keys st \<Longrightarrow> unique_keys (registerRoute st m p os)"
  by (simp add: registerRoute_def Let_def addRoute_unique_keys)

section \<open>Facts about interception\<close>

lemma verb_call_single:
  assumes "m \<in> set methods" "verbWrappers w a = [wr]" "observed_path wr arg = Inr fullPath"
  shows "verb_call w a m arg hs =
           (w\<lparr>swagger := autoRegisterRoute (swagger w) m fullPath (collectRouteOptions hs),
              calls := calls w @ [Observed m fullPath, DelegatedVerb a m arg]\<rparr>, None)"
  using assms by (simp add: verb_call_def Let_def)

lemma verb_call_unwrapped:
  assumes "verbWrappers w a = []"
  shows "verb_call w a m arg hs = (w\<lparr>calls := calls w @ [DelegatedVerb a m arg]\<rparr>, None)"
  using assms by (simp add: verb_call_def Let_def)

text \<open>
  A call on the main application whose first argument is a handler: the wrapper raises,
  nothing is stored and the framework's method is not reached.
\<close>

lemma verb_call_handler_first:
  assumes "m \<in> set methods" "verbWrappers w a = MainWrapper # ws"
  shows "verb_call w a m (HandlerArg src) hs = (w, Some TypeError)"
  using assms by (simp add: verb_call_def Let_def)

lemma route_call_main:
  "verbWrappers (route_call w (mainApp w) base sub) sub = SubAppWrapper base # verbWrappers w sub"
  "swagger (route_call w (mainApp w) base sub) = swagger w"
  "calls (route_call w (mainApp w) base sub) = calls w @ [DelegatedRoute (mainApp w) base sub]"
  by (simp_all add: route_call_def hookIntoSubAppRoutes_def Let_def)

lemma route_call_other:
  "parent \<noteq> mainApp w \<Longrightarrow> verbWrappers (route_call w parent base sub) = verbWrappers w"
  "parent \<noteq> mainApp w \<Longrightarrow> swagger (route_call w parent base sub) = swagger w"
  by (simp_all add: route_call_def Let_def)

section \<open>Facts about the converter\<close>

lemmas setters = set_type_def set_format_def set_minLength_def set_maxLength_def set_pattern_def
  set_minimum_def set_maximum_def set_properties_def set_required_def set_items_def set_enum_def
  set_oneOf_def set_default_def

lemma string_check_commute:
  assumes "x \<in> set [CheckEmail, CheckMin a, CheckMax b]"
    and "y \<in> set [CheckEmail, CheckMin a, CheckMax b]"
  shows "string_check x \<circ> string_check y = string_check y \<circ> string_check x"
proof
  fix f
  show "(string_check x \<circ> string_check y) f = (string_check y \<circ> string_check x) f"
    using assms by (cases f) (auto simp: setters)
qed

lemma recover_simps:
  "recover (Inl e, ws) = (object_fragment, ws @ [e])"
  "recover (Inr None, ws) = (object_fragment, ws)"
  "recover (Inr (Some f), ws) = (f, ws)"
  by (simp_all add: recover_def)

lemma warnings_are_raised: "snd (recover (try_block z)) = raised_errors z"
proof (induction z)
  case (ZodObject shape)
  have IH: "snd (recover (try_block (snd x))) = raised_errors (snd x)" if "x \<in> set shape" for x
    using that ZodObject[of x "snd x"] by (simp add: prod_set_defs)
  have eq: "concat (map (\<lambda>x. snd (recover (try_block (snd x)))) shape)
      = concat (map (\<lambda>x. raised_errors (snd x)) shape)"
    by (rule arg_cong[where f = concat], rule map_cong[OF refl]) (simp add: IH)
  have lhs: "snd (recover (try_block (ZodObject shape)))
      = concat (map (\<lambda>x. snd (recover (try_block (snd x)))) shape)"
    by (simp add: recover_simps Let_def case_prod_unfold comp_def)
  have rhs: "raised_errors (ZodObject shape) = concat (map (\<lambda>x. raised_errors (snd x)) shape)"
    by (simp add: case_prod_unfold)
  show ?case unfolding lhs rhs by (rule eq)
next
  case (ZodUnion opts)
  have eq: "concat (map (\<lambda>v. snd (recover (try_block v))) opts) = concat (map raised_errors opts)"
    by (rule arg_cong[where f = concat], rule map_cong[OF refl]) (simp add: ZodUnion)
  have lhs: "snd (recover (try_block (ZodUnion opts)))
      = concat (map (\<lambda>v. snd (recover (try_block v))) opts)"
    by (simp add: recover_simps Let_def comp_def)
  show ?case unfolding lhs by (simp only: eq raised_errors.simps)
next
  case (ZodDefault t d)
  then show ?case by (cases d) (simp_all add: recover_simps Let_def)
qed (simp_all add: recover_simps Let_def)

lemma raises_iff:
  "(\<exists>e ws. try_block z = (Inl e, ws)) \<longleftrightarrow> (z = ZodMalformed \<or> (\<exists>t e. z = ZodDefault t (Inl e)))"
  by (cases z) (auto simp: Let_def split: sum.splits)

section \<open>The registry claims\<close>

text \<open>
  C1 (upsert merges, as the code does it). For routes \<open>R1\<close> and \<open>R2\<close> with the same
  method and path and a registry whose keys are unique, \<open>addRoute\<close> of \<open>R1\<close> and
  then of \<open>R2\<close> leaves exactly one entry under the key: the spread of \<open>R2\<close> over
  the entry that the first call left, which is \<open>R1\<close> itself or the spread of \<open>R1\<close>
  over the entry stored before. In the spread every property that \<open>R2\<close> holds wins,
  whatever its value, and only a property absent from \<open>R2\<close> keeps the earlier value.
\<close>

theorem addRoute_twice_one_entry:
  assumes m: "method' R1 = method' R2" and p: "path R1 = path R2" and u: "unique_keys st"
  shows "entries_for (addRoute (addRoute st R1) R2) (method' R2) (path R2) =
           [spread_route
              (case findIndex (same_route (method' R1) (path R1)) (routes st) of
                 None \<Rightarrow> R1
               | Some i \<Rightarrow> spread_route (routes st ! i) R1)
              R2] \<and>
         unique_keys (addRoute (addRoute st R1) R2) \<and>
         parameters (spread_route E R2) = parameters R2 \<and>
         responses (spread_route E R2) = responses R2 \<and>
         tags (spread_route E R2) = tags R2 \<and>
         summary (spread_route E R2) =
           (case summary R2 of Absent \<Rightarrow> summary E | Undefined \<Rightarrow> Undefined | Val v \<Rightarrow> Val v) \<and>
         description (spread_route E R2) =
           (case description R2 of Absent \<Rightarrow> description E | Undefined \<Rightarrow> Undefined
            | Val v \<Rightarrow> Val v) \<and>
         zodSchema (spread_route E R2) =
           (case zodSchema R2 of Absent \<Rightarrow> zodSchema E | Undefined \<Rightarrow> Undefined
            | Val v \<Rightarrow> Val v) \<and>
         requestBody (spread_route E R2) =
           (case requestBody R2 of Absent \<Rightarrow> requestBody E | Undefined \<Rightarrow> Undefined
            | Val v \<Rightarrow> Val v)"
proof -
  have one: "filter (same_route (method' R2) (path R2)) (routes (addRoute (addRoute st R1) R2)) =
           [spread_route
              (case findIndex (same_route (method' R1) (path R1)) (routes st) of
                 None \<Rightarrow> R1
               | Some i \<Rightarrow> spread_route (routes st ! i) R1)
              R2]"
  proof (cases "findIndex (same_route (method' R1) (path R1)) (routes st)")
    case None
    let ?P = "same_route (method' R1) (path R1)"
    have PR1: "?P R1" by (simp add: same_route_def)
    have once: "addRoute st R1 = st\<lparr>routes := routes st @ [R1]\<rparr>"
      using None by (simp add: addRoute_def)
    have idx: "findIndex ?P (routes st @ [R1]) = Some (length (routes st))"
      using None PR1 by (rule findIndex_append_new)
    have twice: "routes (addRoute (st\<lparr>routes := routes st @ [R1]\<rparr>) R2)
        = routes st @ [spread_route R1 R2]"
      using idx m p by (simp add: addRoute_def)
    have none: "filter ?P (routes st) = []"
      using None by (simp add: findIndex_None filter_empty_conv)
    have "?P (spread_route R1 R2)" using m p by (simp add: same_route_def spread_route_def)
    with none twice show ?thesis
      using None m p by (simp add: once)
  next
    case (Some i)
    let ?P = "same_route (method' R1) (path R1)"
    let ?xs = "routes st"
    let ?e1 = "spread_route (?xs ! i) R1"
    let ?e2 = "spread_route ?e1 R2"
    from findIndex_Some_same[OF Some] have i: "i < length ?xs"
      and k: "route_key (?xs ! i) = (method' R1, path R1)" by auto
    have Pe1: "?P ?e1" by (simp add: same_route_def spread_route_def)
    have once: "addRoute st R1 = st\<lparr>routes := ?xs[i := ?e1]\<rparr>"
      using Some by (simp add: addRoute_def)
    have idx: "findIndex ?P (?xs[i := ?e1]) = Some i"
      using Some Pe1 by (rule findIndex_update)
    have twice: "routes (addRoute (st\<lparr>routes := ?xs[i := ?e1]\<rparr>) R2) = ?xs[i := ?e2]"
      using idx i m p by (simp add: addRoute_def)
    have "route_key ?e2 = (method' R1, path R1)"
      using m p by (simp add: route_key_def spread_route_def)
    with u i k have "filter (\<lambda>r. route_key r = (method' R1, path R1)) (?xs[i := ?e2]) = [?e2]"
      unfolding unique_keys_def by (intro filter_key_update) auto
    then have "filter ?P (?xs[i := ?e2]) = [?e2]"
      by (simp add: same_route_key)
    with twice show ?thesis
      using Some m p by (simp add: once)
  qed
  have inv: "unique_keys (addRoute (addRoute st R1) R2)"
    using u by (intro addRoute_unique_keys)
  have fields: "parameters (spread_route E R2) = parameters R2 \<and>
         responses (spread_route E R2) = responses R2 \<and>
         tags (spread_route E R2) = tags R2 \<and>
         summary (spread_route E R2) =
           (case summary R2 of Absent \<Rightarrow> summary E | Undefined \<Rightarrow> Undefined | Val v \<Rightarrow> Val v) \<and>
         description (spread_route E R2) =
           (case description R2 of Absent \<Rightarrow> description E | Undefined \<Rightarrow> Undefined
            | Val v \<Rightarrow> Val v) \<and>
         zodSchema (spread_route E R2) =
           (case zodSchema R2 of Absent \<Rightarrow> zodSchema E | Undefined \<Rightarrow> Undefined
            | Val v \<Rightarrow> Val v) \<and>
         requestBody (spread_route E R2) =
           (case requestBody R2 of Absent \<Rightarrow> requestBody E | Undefined \<Rightarrow> Undefined
            | Val v \<Rightarrow> Val v)"
    by (simp add: spread_route_def spread_opt_def)
  from one inv fields show ?thesis
    by (simp only: entries_for_def simp_thms)
qed

text \<open>
  The example of the specification: from the empty registry, \<open>addRoute\<close> of
  \<open>{method: 'get', path: '/x'}\<close> and then of the same route with \<open>summary: 'S'\<close>
  leaves one entry, with the summary \<open>S\<close>.
\<close>

theorem addRoute_twice_one_entry_witness:
  "method' route_x = method' (route_x\<lparr>summary := Val ''S''\<rparr>) \<and>
   path route_x = path (route_x\<lparr>summary := Val ''S''\<rparr>) \<and>
   unique_keys st0 \<and>
   entries_for (addRoute (addRoute st0 route_x) (route_x\<lparr>summary := Val ''S''\<rparr>)) ''get'' ''/x''
     = [route_x\<lparr>summary := Val ''S''\<rparr>] \<and>
   routes (addRoute (addRoute st0 route_x) (route_x\<lparr>summary := Val ''S''\<rparr>))
     = [route_x\<lparr>summary := Val ''S''\<rparr>]"
proof -
  have h1: "method' route_x = method' (route_x\<lparr>summary := Val ''S''\<rparr>)" by simp
  have h2: "path route_x = path (route_x\<lparr>summary := Val ''S''\<rparr>)" by simp
  have h3: "unique_keys st0" by (simp add: st0_def new_unique_keys)
  have "entries_for (addRoute (addRoute st0 route_x) (route_x\<lparr>summary := Val ''S''\<rparr>))
          (method' (route_x\<lparr>summary := Val ''S''\<rparr>)) (path (route_x\<lparr>summary := Val ''S''\<rparr>)) =
           [spread_route
              (case findIndex (same_route (method' route_x) (path route_x)) (routes st0) of
                 None \<Rightarrow> route_x
               | Some i \<Rightarrow> spread_route (routes st0 ! i) route_x)
              (route_x\<lparr>summary := Val ''S''\<rparr>)]"
    by (rule addRoute_twice_one_entry[OF h1 h2 h3, where E = route_x, THEN conjunct1])
  then have one: "entries_for (addRoute (addRoute st0 route_x) (route_x\<lparr>summary := Val ''S''\<rparr>))
      ''get'' ''/x'' = [route_x\<lparr>summary := Val ''S''\<rparr>]"
    by (simp add: st0_def new_HonoSwagger_def route_x_def spread_route_def spread_opt_def)
  have all: "routes (addRoute (addRoute st0 route_x) (route_x\<lparr>summary := Val ''S''\<rparr>))
     = [route_x\<lparr>summary := Val ''S''\<rparr>]"
    by (simp add: addRoute_def st0_def new_HonoSwagger_def route_x_def same_route_def
        spread_route_def spread_opt_def)
  from h1 h2 h3 one all show ?thesis
    by (intro conjI) (simp_all only: simp_thms)
qed

text \<open>
  C1 as the specification states it fails: a second route whose parameters and tags
  are empty, whose summary is the empty string and whose description is \<open>undefined\<close>
  erases the values that the first route had stored.
\<close>

theorem addRoute_empty_values_erase:
  "routes (addRoute (addRoute st0 route_x_documented) route_x_bare) = [route_x_bare] \<and>
   parameters route_x_documented = [id_parameter] \<and> parameters route_x_bare = [] \<and>
   tags route_x_documented = [''things''] \<and> tags route_x_bare = [] \<and>
   summary route_x_documented = Val ''List things'' \<and> summary route_x_bare = Val [] \<and>
   description route_x_documented = Val ''All the things'' \<and>
   description route_x_bare = Undefined"
  by (simp add: addRoute_def st0_def new_HonoSwagger_def route_x_documented_def route_x_bare_def
      same_route_def spread_route_def spread_opt_def)

text \<open>
  C2 (idempotence of upsert). On every registry state and for every route \<open>R\<close>,
  \<open>addRoute\<close> of \<open>R\<close> twice in succession leaves the same state (same entries, same
  order, same field values) as \<open>addRoute\<close> of \<open>R\<close> once.
\<close>

theorem addRoute_idempotent: "addRoute (addRoute st R) R = addRoute st R"
proof (cases "findIndex (same_route (method' R) (path R)) (routes st)")
  case None
  have self: "same_route (method' R) (path R) R" by (simp add: same_route_def)
  have once: "addRoute st R = st\<lparr>routes := routes st @ [R]\<rparr>"
    using None by (simp add: addRoute_def)
  have "findIndex (same_route (method' R) (path R)) (routes st @ [R]) = Some (length (routes st))"
    using None self by (rule findIndex_append_new)
  then have "addRoute (st\<lparr>routes := routes st @ [R]\<rparr>) R = st\<lparr>routes := routes st @ [R]\<rparr>"
    by (simp add: addRoute_def spread_route_self)
  then show ?thesis
    by (simp only: once)
next
  case (Some i)
  let ?P = "same_route (method' R) (path R)"
  let ?e = "spread_route (routes st ! i) R"
  have self: "?P ?e" by (simp add: spread_route_def same_route_def)
  have i: "i < length (routes st)" using findIndex_Some[OF Some] by simp
  have once: "addRoute st R = st\<lparr>routes := (routes st)[i := ?e]\<rparr>"
    using Some by (simp add: addRoute_def)
  have again: "findIndex ?P ((routes st)[i := ?e]) = Some i"
    using Some self by (rule findIndex_update)
  have "addRoute (st\<lparr>routes := (routes st)[i := ?e]\<rparr>) R = st\<lparr>routes := (routes st)[i := ?e]\<rparr>"
    using i again by (simp add: addRoute_def spread_route_def spread_opt_idem)
  then show ?thesis
    by (simp only: once)
qed

theorem addRoute_idempotent_witness:
  "addRoute (addRoute st0 route_x_documented) route_x_documented = addRoute st0 route_x_documented \<and>
   addRoute (addRoute st_users route_x) route_x = addRoute st_users route_x"
  using addRoute_idempotent[of st0 route_x_documented] addRoute_idempotent[of st_users route_x]
  by (intro conjI) (simp_all only: simp_thms)

text \<open>
  C3 (exclusion), evaluated where the code departs from it. A path under the
  documentation route, or under a configured exclusion prefix, is dropped by
  \<open>autoRegisterRoute\<close> and stored by the public \<open>registerRoute\<close>, which never calls
  \<open>shouldExcludePath\<close>.
\<close>

theorem registerRoute_ignores_exclusion:
  "shouldExcludePath st0 ''/swagger-ui/x'' \<and>
   autoRegisterRoute st0 ''get'' ''/swagger-ui/x'' no_route_options = st0 \<and>
   map path (routes (registerRoute st0 ''get'' ''/swagger-ui/x'' None)) = [''/swagger-ui/x''] \<and>
   shouldExcludePath (new_HonoSwagger docs_options) ''/internal/metrics'' \<and>
   map path (routes (registerRoute (new_HonoSwagger docs_options) ''get'' ''/internal/metrics'' None))
     = [''/internal/metrics'']"
  by code_simp

section \<open>The converter claims\<close>

text \<open>
  C4 (the converter never raises). \<open>zodToOpenAPI\<close> returns a fragment and the
  warnings it has written for every argument. For \<open>null\<close> the fragment is exactly
  \<open>{type: 'object'}\<close> and there is no warning. The \<open>try\<close> block raises exactly for a
  node whose internal state is damaged and for a default whose function throws; the
  result is then exactly \<open>{type: 'object'}\<close>, with one warning more, for the exception
  raised, after the warnings of the nested calls. Over the whole schema one warning is
  written for every exception that a node raises, in the order of the conversion, and no
  other.
\<close>

theorem zodToOpenAPI_never_raises:
  "zodToOpenAPI None =
     (SchemaFragment (Some ''object'') None None None None None None None None None None None None,
      []) \<and>
   zodToOpenAPI (Some ZodMalformed) =
     (SchemaFragment (Some ''object'') None None None None None None None None None None None None,
      [TypeError]) \<and>
   zodToOpenAPI (Some (ZodDefault t (Inl e))) =
     (SchemaFragment (Some ''object'') None None None None None None None None None None None None,
      raised_errors t @ [e]) \<and>
   ((\<exists>e' ws. try_block z = (Inl e', ws)) \<longleftrightarrow>
      z = ZodMalformed \<or> (\<exists>t' e'. z = ZodDefault t' (Inl e'))) \<and>
   (\<forall>e' ws. try_block z = (Inl e', ws) \<longrightarrow>
      zodToOpenAPI (Some z) =
        (SchemaFragment (Some ''object'') None None None None None None None None None None None
           None,
         ws @ [e'])) \<and>
   snd (zodToOpenAPI (Some z)) = raised_errors z"
proof -
  have fb: "object_fragment =
      SchemaFragment (Some ''object'') None None None None None None None None None None None None"
    by (simp add: object_fragment_def set_type_def empty_fragment_def)
  have inner: "snd (recover (try_block t)) = raised_errors t"
    by (rule warnings_are_raised)
  have "zodToOpenAPI (Some (ZodDefault t (Inl e))) = (object_fragment, raised_errors t @ [e])"
    by (simp add: zodToOpenAPI_def Let_def recover_simps inner)
  moreover have "\<forall>e' ws. try_block z = (Inl e', ws) \<longrightarrow>
      zodToOpenAPI (Some z) = (object_fragment, ws @ [e'])"
    by (simp add: zodToOpenAPI_def recover_simps)
  moreover have "snd (zodToOpenAPI (Some z)) = raised_errors z"
    by (simp add: zodToOpenAPI_def warnings_are_raised)
  moreover have "zodToOpenAPI None = (object_fragment, [])"
    "zodToOpenAPI (Some ZodMalformed) = (object_fragment, [TypeError])"
    by (simp_all add: zodToOpenAPI_def recover_simps)
  ultimately show ?thesis
    using raises_iff[of z] by (simp only: fb simp_thms)
qed

theorem zodToOpenAPI_never_raises_witness:
  "try_block (ZodDefault (ZodString [CheckEmail]) (Inl (Thrown ''no default'')))
     = (Inl (Thrown ''no default''), []) \<and>
   zodToOpenAPI (Some (ZodDefault (ZodString [CheckEmail]) (Inl (Thrown ''no default'')))) =
     (SchemaFragment (Some ''object'') None None None None None None None None None None None None,
      [] @ [Thrown ''no default'']) \<and>
   snd (zodToOpenAPI (Some (ZodObject
          [(''name'', ZodMalformed),
           (''age'', ZodDefault (ZodNumber [CheckInt]) (Inl (Thrown ''no default'')))])))
     = [TypeError, Thrown ''no default''] \<and>
   fst (zodToOpenAPI (Some (ZodArray ZodMalformed))) =
     SchemaFragment (Some ''array'') None None None None None None None None
       (Some (SchemaFragment (Some ''object'') None None None None None None None None None None
                None None))
       None None None"
proof -
  let ?d = "ZodDefault (ZodString [CheckEmail]) (Inl (Thrown ''no default''))"
  let ?o = "ZodObject [(''name'', ZodMalformed),
           (''age'', ZodDefault (ZodNumber [CheckInt]) (Inl (Thrown ''no default'')))]"
  have h: "try_block ?d = (Inl (Thrown ''no default''), [])"
    by (simp add: recover_def)
  note caught = zodToOpenAPI_never_raises[where z = ?d, THEN conjunct2, THEN conjunct2,
      THEN conjunct2, THEN conjunct2, THEN conjunct1, rule_format, OF h]
  have r: "raised_errors ?o = [TypeError, Thrown ''no default'']"
    by simp
  have "snd (zodToOpenAPI (Some ?o)) = raised_errors ?o"
    by (rule zodToOpenAPI_never_raises[where z = ?o, THEN conjunct2, THEN conjunct2,
          THEN conjunct2, THEN conjunct2, THEN conjunct2])
  then have w: "snd (zodToOpenAPI (Some ?o)) = [TypeError, Thrown ''no default'']"
    by (simp only: r)
  have a: "fst (zodToOpenAPI (Some (ZodArray ZodMalformed))) =
     SchemaFragment (Some ''array'') None None None None None None None None
       (Some (SchemaFragment (Some ''object'') None None None None None None None None None None
                None None))
       None None None"
    by (simp add: zodToOpenAPI_def recover_def object_fragment_def setters empty_fragment_def)
  from h caught w a show ?thesis
    by (intro conjI) (simp_all only: simp_thms)
qed

text \<open>
  C5 (email with length bounds). A string schema whose checks are an email check, a
  minimum length 1 and a maximum length 100, applied in any order, converts to exactly
  \<open>{type: 'string', format: 'email', minLength: 1, maxLength: 100}\<close>, without a
  warning.
\<close>

theorem email_with_length_bounds:
  assumes "mset checks = mset [CheckEmail, CheckMin 1, CheckMax 100]"
  shows "zodToOpenAPI (Some (ZodString checks)) =
     (set_maxLength 100 (set_minLength 1 (set_format ''email'' (set_type ''string'' empty_fragment))), [])"
proof -
  have "set checks = set [CheckEmail, CheckMin 1, CheckMax 100]"
    using assms by (rule mset_eq_setD)
  then have "fold string_check checks = fold string_check [CheckEmail, CheckMin 1, CheckMax 100]"
    using assms string_check_commute[of _ 1 100]
    by (intro fold_multiset_equiv) auto
  then show ?thesis
    by (simp add: zodToOpenAPI_def recover_def)
qed

theorem email_with_length_bounds_witness:
  "mset [CheckMax 100, CheckEmail, CheckMin 1] = mset [CheckEmail, CheckMin 1, CheckMax 100] \<and>
   zodToOpenAPI (Some (ZodString [CheckMax 100, CheckEmail, CheckMin 1])) =
     (set_maxLength 100 (set_minLength 1 (set_format ''email'' (set_type ''string'' empty_fragment))), []) \<and>
   set_maxLength 100 (set_minLength 1 (set_format ''email'' (set_type ''string'' empty_fragment)))
     = SchemaFragment (Some ''string'') (Some ''email'') (Some 1) (Some 100)
         None None None None None None None None None"
proof -
  have h: "mset [CheckMax 100, CheckEmail, CheckMin 1] = mset [CheckEmail, CheckMin 1, CheckMax 100]"
    by (simp add: add.commute add.left_commute)
  have v: "set_maxLength 100 (set_minLength 1 (set_format ''email'' (set_type ''string'' empty_fragment)))
     = SchemaFragment (Some ''string'') (Some ''email'') (Some 1) (Some 100)
         None None None None None None None None None"
    by (simp add: setters empty_fragment_def)
  from h email_with_length_bounds[OF h] v show ?thesis
    by (intro conjI) (simp_all only: simp_thms)
qed



section \<open>The discovery claims\<close>

text \<open>
  C7 (path normalisation), evaluated where the code departs from it. The stored
  path loses one trailing slash only: the path \<open>/a//\<close> is stored as \<open>/a/\<close>, which
  ends with a slash and is not the root path, beside the entry \<open>/a\<close> that \<open>/a/\<close>
  is stored as; and a call \<open>get('/')\<close> on a router mounted at \<open>/api/\<close> is stored
  as \<open>/api/\<close>. The parameter of \<open>/users/:id/\<close> is rewritten and its one slash
  removed, by a verb call and by a scanned route alike.
\<close>

theorem double_trailing_slash_kept:
  "shouldExcludePath st0 ''/a//'' = False \<and>
   map path (routes (autoRegisterRoute st0 ''get'' ''/a//'' no_route_options)) = [''/a/''] \<and>
   map path (routes (autoRegisterRoute (autoRegisterRoute st0 ''get'' ''/a/'' no_route_options)
                       ''get'' ''/a//'' no_route_options)) = [''/a'', ''/a/''] \<and>
   map path (routes (swagger (fst (verb_call (route_call w0 0 ''/api/'' 1) 1 ''get''
                                     (PathArg ''/'') [])))) = [''/api/''] \<and>
   map path (routes (swagger (fst (verb_call w0 0 ''get'' (PathArg ''/users/:id/'') []))))
     = [''/users/{id}''] \<and>
   map path (routes (registerScannedRoute roles_router roles_get_id st0)) = [''/api/roles/{id}'']"
  by code_simp

text \<open>
  C8 (interception, as the code does it). The constructor wraps the seven verb
  methods of its application: a call whose first argument is a path is recorded in the
  registry, with the options collected from its handlers, and then handed to the
  original method. Mounting a router that has no wrappers yet on that application at a
  base path wraps the router's verb methods: a later verb call on it with a path is
  recorded under the base path followed by the call's path and then handed on. The
  wrapping is one level deep: \<open>route\<close> called on any other router installs nothing,
  and a verb call on a router without wrappers leaves the registry as it is.
\<close>

theorem interception_one_level:
  "(verbWrappers (new_World os a) a = [MainWrapper] \<and> mainApp (new_World os a) = a) \<and>
   (m \<in> set methods \<and> verbWrappers w a = [MainWrapper] \<longrightarrow>
      verb_call w a m (PathArg p) hs =
        (w\<lparr>swagger := autoRegisterRoute (swagger w) m p (collectRouteOptions hs),
           calls := calls w @ [Observed m p, DelegatedVerb a m (PathArg p)]\<rparr>, None)) \<and>
   (m \<in> set methods \<and> verbWrappers w sub = [] \<longrightarrow>
      verb_call (route_call w (mainApp w) base sub) sub m (PathArg p) hs =
        ((route_call w (mainApp w) base sub)
           \<lparr>swagger := autoRegisterRoute (swagger w) m (base @ p) (collectRouteOptions hs),
            calls := calls w @ [DelegatedRoute (mainApp w) base sub, Observed m (base @ p),
                               DelegatedVerb sub m (PathArg p)]\<rparr>, None)) \<and>
   (parent \<noteq> mainApp w \<longrightarrow>
      verbWrappers (route_call w parent base sub) = verbWrappers w \<and>
      swagger (route_call w parent base sub) = swagger w) \<and>
   (verbWrappers w a = [] \<longrightarrow>
      verb_call w a m arg hs = (w\<lparr>calls := calls w @ [DelegatedVerb a m arg]\<rparr>, None))"
proof (intro conjI impI)
  show "verbWrappers (new_World os a) a = [MainWrapper]" "mainApp (new_World os a) = a"
    by (simp_all add: new_World_def)
next
  assume h: "m \<in> set methods \<and> verbWrappers w a = [MainWrapper]"
  then show "verb_call w a m (PathArg p) hs =
        (w\<lparr>swagger := autoRegisterRoute (swagger w) m p (collectRouteOptions hs),
           calls := calls w @ [Observed m p, DelegatedVerb a m (PathArg p)]\<rparr>, None)"
    using verb_call_single[of m w a MainWrapper "PathArg p" p hs] by simp
next
  let ?w1 = "route_call w (mainApp w) base sub"
  assume h: "m \<in> set methods \<and> verbWrappers w sub = []"
  then have ws: "verbWrappers ?w1 sub = [SubAppWrapper base]"
    by (simp add: route_call_main)
  have "verb_call ?w1 sub m (PathArg p) hs =
      (?w1\<lparr>swagger := autoRegisterRoute (swagger ?w1) m (base @ p) (collectRouteOptions hs),
           calls := calls ?w1 @ [Observed m (base @ p), DelegatedVerb sub m (PathArg p)]\<rparr>, None)"
    using h ws verb_call_single[of m ?w1 sub "SubAppWrapper base" "PathArg p" "base @ p" hs]
    by simp
  then show "verb_call ?w1 sub m (PathArg p) hs =
        (?w1\<lparr>swagger := autoRegisterRoute (swagger w) m (base @ p) (collectRouteOptions hs),
            calls := calls w @ [DelegatedRoute (mainApp w) base sub, Observed m (base @ p),
                               DelegatedVerb sub m (PathArg p)]\<rparr>, None)"
    by (simp add: route_call_main)
next
  assume "parent \<noteq> mainApp w"
  then show "verbWrappers (route_call w parent base sub) = verbWrappers w"
    "swagger (route_call w parent base sub) = swagger w"
    by (simp_all add: route_call_other)
next
  assume "verbWrappers w a = []"
  then show "verb_call w a m arg hs = (w\<lparr>calls := calls w @ [DelegatedVerb a m arg]\<rparr>, None)"
    by (rule verb_call_unwrapped)
qed

theorem interception_one_level_witness:
  "(''get'' \<in> set methods \<and> verbWrappers w0 0 = [MainWrapper]) \<and>
   verb_call w0 0 ''get'' (PathArg ''/users/:id'') [] =
     (w0\<lparr>swagger := autoRegisterRoute (swagger w0) ''get'' ''/users/:id'' (collectRouteOptions []),
         calls := calls w0 @ [Observed ''get'' ''/users/:id'',
                              DelegatedVerb 0 ''get'' (PathArg ''/users/:id'')]\<rparr>, None) \<and>
   (''get'' \<in> set methods \<and> verbWrappers w0 1 = []) \<and>
   verb_call (route_call w0 (mainApp w0) ''/api'' 1) 1 ''get'' (PathArg ''/users/:id'') [] =
     ((route_call w0 (mainApp w0) ''/api'' 1)
        \<lparr>swagger := autoRegisterRoute (swagger w0) ''get'' (''/api'' @ ''/users/:id'')
                      (collectRouteOptions []),
         calls := calls w0 @ [DelegatedRoute (mainApp w0) ''/api'' 1,
                              Observed ''get'' (''/api'' @ ''/users/:id''),
                              DelegatedVerb 1 ''get'' (PathArg ''/users/:id'')]\<rparr>, None) \<and>
   map path (routes (swagger (fst (verb_call (route_call w0 (mainApp w0) ''/api'' 1) 1 ''get''
                                     (PathArg ''/users/:id'') []))))
     = [''/api/users/{id}''] \<and>
   (1::nat) \<noteq> mainApp (route_call w0 0 ''/api'' 1) \<and>
   verbWrappers (route_call (route_call w0 0 ''/api'' 1) 1 ''/v1'' 2)
     = verbWrappers (route_call w0 0 ''/api'' 1) \<and>
   verbWrappers nested_world 2 = [] \<and>
   verb_call nested_world 2 ''get'' (PathArg ''/x'') [] =
     (nested_world\<lparr>calls := calls nested_world @ [DelegatedVerb 2 ''get'' (PathArg ''/x'')]\<rparr>, None)"
proof -
  note main = interception_one_level[where os = default_options and a = 0 and m = "''get''"
      and w = w0 and p = "''/users/:id''" and hs = "[]" and sub = 1 and base = "''/api''"]
  note other = interception_one_level[where w = "route_call w0 0 ''/api'' 1" and parent = 1
      and base = "''/v1''" and sub = 2]
  note unwrapped = interception_one_level[where w = nested_world and a = 2 and m = "''get''"
      and arg = "PathArg ''/x''" and hs = "[]"]
  have h1: "''get'' \<in> set methods \<and> verbWrappers w0 0 = [MainWrapper]" by code_simp
  have h2: "''get'' \<in> set methods \<and> verbWrappers w0 1 = []" by code_simp
  have h3: "(1::nat) \<noteq> mainApp (route_call w0 0 ''/api'' 1)" by code_simp
  have h4: "verbWrappers nested_world 2 = []" by code_simp
  note c1 = main[THEN conjunct2, THEN conjunct1, THEN mp, OF h1]
  note c2 = main[THEN conjunct2, THEN conjunct2, THEN conjunct1, THEN mp, OF h2]
  have c3: "map path (routes (swagger (fst (verb_call (route_call w0 (mainApp w0) ''/api'' 1) 1 ''get''
                                     (PathArg ''/users/:id'') []))))
     = [''/api/users/{id}'']"
    by code_simp
  have c4: "verbWrappers (route_call (route_call w0 0 ''/api'' 1) 1 ''/v1'' 2)
     = verbWrappers (route_call w0 0 ''/api'' 1)"
    by (rule other[THEN conjunct2, THEN conjunct2, THEN conjunct2, THEN conjunct1, THEN mp, OF h3,
          THEN conjunct1])
  note c5 = unwrapped[THEN conjunct2, THEN conjunct2, THEN conjunct2, THEN conjunct2, THEN mp, OF h4]
  from h1 c1 h2 c2 c3 h3 c4 h4 c5 show ?thesis
    by (intro conjI) (simp_all only: simp_thms)
qed

text \<open>
  C8 as the specification states it fails for a router mounted on a mounted router:
  with router 1 mounted on the application at \<open>/api\<close> and router 2 mounted on router 1
  at \<open>/v1\<close>, the call \<open>get('/x')\<close> on router 2 is handed to the framework and nothing
  is recorded, although \<open>/api/v1/x\<close> is not an excluded path.
\<close>

theorem nested_mount_not_recorded:
  "shouldExcludePath (swagger nested_world) ''/api/v1/x'' = False \<and>
   routes (swagger (fst (verb_call nested_world 2 ''get'' (PathArg ''/x'') []))) = [] \<and>
   calls (fst (verb_call nested_world 2 ''get'' (PathArg ''/x'') []))
     = [DelegatedRoute 0 ''/api'' 1, DelegatedRoute 1 ''/v1'' 2,
        DelegatedVerb 2 ''get'' (PathArg ''/x'')] \<and>
   snd (verb_call nested_world 2 ''get'' (PathArg ''/x'') []) = None"
  by code_simp

text \<open>
  C9 (parameters of an auto-registered route). The parameters of the route that
  \<open>autoRegisterRoute\<close> builds are taken from the normalised path, in which no colon is
  followed by a word character any more: the list is empty for every path, and the
  entry stored for a path that is neither excluded nor documented has no parameters.
\<close>

theorem auto_registered_parameters_empty:
  "extractParametersFromPath (normalizedPath p) = [] \<and>
   parameters (autoRouteInfo m p opts) = [] \<and>
   (\<not> shouldExcludePath st p \<and> \<not> isRouteDocumented st m (normalizedPath p) \<longrightarrow>
      (\<exists>r\<in>set (routes (autoRegisterRoute st m p opts)).
         method' r = toLowerCase m \<and> path r = normalizedPath p \<and> parameters r = []))"
  using autoRegisterRoute_stored[of st p m opts]
  by (simp add: no_parameters_normalized autoRouteInfo_def)

theorem auto_registered_parameters_empty_witness:
  "(\<not> shouldExcludePath st0 ''/users/:id'' \<and>
    \<not> isRouteDocumented st0 ''get'' (normalizedPath ''/users/:id'')) \<and>
   normalizedPath ''/users/:id'' = ''/users/{id}'' \<and>
   (\<exists>r\<in>set (routes (autoRegisterRoute st0 ''get'' ''/users/:id'' no_route_options)).
      method' r = ''get'' \<and> path r = ''/users/{id}'' \<and> parameters r = []) \<and>
   map parameters (routes (autoRegisterRoute st0 ''get'' ''/users/:id'' no_route_options)) = [[]]"
proof -
  have h: "\<not> shouldExcludePath st0 ''/users/:id'' \<and>
    \<not> isRouteDocumented st0 ''get'' (normalizedPath ''/users/:id'')"
    by code_simp
  have n: "normalizedPath ''/users/:id'' = ''/users/{id}''" and l: "toLowerCase ''get'' = ''get''"
    by code_simp+
  have all: "map parameters (routes (autoRegisterRoute st0 ''get'' ''/users/:id'' no_route_options)) = [[]]"
    by code_simp
  note inst = auto_registered_parameters_empty[of "''/users/:id''" "''get''" no_route_options st0]
  have "\<exists>r\<in>set (routes (autoRegisterRoute st0 ''get'' ''/users/:id'' no_route_options)).
         method' r = toLowerCase ''get'' \<and> path r = normalizedPath ''/users/:id'' \<and> parameters r = []"
    by (rule inst[THEN conjunct2, THEN conjunct2, THEN mp, OF h])
  then have ex: "\<exists>r\<in>set (routes (autoRegisterRoute st0 ''get'' ''/users/:id'' no_route_options)).
         method' r = ''get'' \<and> path r = ''/users/{id}'' \<and> parameters r = []"
    by (simp only: n l)
  from h n ex all show ?thesis by (intro conjI) (simp_all only: simp_thms)
qed

text \<open>
  C10 (first discovery wins), evaluated where the code departs from it. The test
  for an existing entry compares the method as it was passed, and the entry is stored
  with the method in lower case. The route \<open>get /users/:id\<close> is first recorded from
  a verb call that carries documentation options; \<open>extractAllRoutes\<close> then finds the
  same route in the framework's table, where the method is \<open>GET\<close>: the test finds
  no entry, and the tags, the summary and the description of the entry are overwritten.
\<close>

theorem later_discovery_overwrites:
  "map route_key (routes (swagger w_user)) = [(''get'', ''/users/{id}'')] \<and>
   map tags (routes (swagger w_user)) = [[''Users'']] \<and>
   map summary (routes (swagger w_user)) = [Val ''Get user''] \<and>
   map description (routes (swagger w_user)) = [Val ''Get a user by id''] \<and>
   isRouteDocumented (swagger w_user) ''get'' ''/users/{id}'' \<and>
   isRouteDocumented (swagger w_user) ''GET'' ''/users/{id}'' = False \<and>
   map route_key (routes (extractAllRoutes [hono_users_route] (swagger w_user)))
     = [(''get'', ''/users/{id}'')] \<and>
   map tags (routes (extractAllRoutes [hono_users_route] (swagger w_user))) = [['':id'']] \<and>
   map summary (routes (extractAllRoutes [hono_users_route] (swagger w_user)))
     = [Val ''GET /users/:id''] \<and>
   map description (routes (extractAllRoutes [hono_users_route] (swagger w_user)))
     = [Val ''Auto-generated from main application'']"
  by code_simp

end
